theory Spec2Isabelle
  imports Main "HOL-Library.Sublist" "HOL-Library.AList"
begin

section \<open>Values of the dashboard script\<close>

text \<open>
  The cells the script handles come out of \<^verbatim>\<open>JSON.parse\<close> or out of a form: strings,
  numbers, booleans and \<^verbatim>\<open>null\<close>; \<^verbatim>\<open>undefined\<close> is what a read of a missing
  property or of an array position past the end gives.

  A finite Number is kept as the decimal JavaScript writes it with: \<open>Dec m e\<close> is the Number
  whose shortest decimal that reads back as the same Number is \<open>m \<times> 10\<^sup>e\<close>. Every finite
  double has one such decimal, two doubles have different ones, and the decimal has the sign
  of the double and is zero when the double is; so the sign tests, truthiness and the string
  form of a Number are those of its decimal. \<open>Num n\<close> is the integer \<open>n\<close>. A Number may be
  written in more than one way (\<open>Dec 10 0\<close> and \<open>Dec 1 1\<close>); the script neither compares these
  Numbers with each other nor does arithmetic on them.

  A character is a UTF-16 code unit below 256, the Latin-1 range.
\<close>

datatype number = Dec int int | PosInf | NegInf | NaN

abbreviation Num :: "int \<Rightarrow> number" where
  "Num n \<equiv> Dec n 0"

datatype jsval = JUndefined | JNull | JBool bool | JNumber number | JStr string

definition digit_char :: "nat \<Rightarrow> char" where
  "digit_char d = ''0123456789'' ! d"

fun digits_of_nat :: "nat \<Rightarrow> string" where
  "digits_of_nat n =
     (if n < 10 then [digit_char n]
      else digits_of_nat (n div 10) @ [digit_char (n mod 10)])"

declare digits_of_nat.simps [simp del]

text \<open>The string form of the positive decimal \<open>m \<times> 10\<^sup>e\<close>, as \<^verbatim>\<open>Number::toString\<close> lays it
  out: \<open>ds\<close> are the significant digits (\<open>k\<close> of them) and \<open>n\<close> is the place of the decimal
  point, so that the value is \<open>0.ds \<times> 10\<^sup>n\<close>. Up to 21 integer digits are written out, a
  fraction is written with a point, with up to six zeros in front, and every other value gets
  an exponent.\<close>

definition decimal_string :: "nat \<Rightarrow> int \<Rightarrow> string" where
  "decimal_string m e =
     (let digits = digits_of_nat m;
          ds = rev (dropWhile (\<lambda>c. c = CHR ''0'') (rev digits));
          k = int (length ds);
          n = int (length digits) + e
      in if k \<le> n \<and> n \<le> 21 then ds @ replicate (nat (n - k)) CHR ''0''
         else if 0 < n \<and> n \<le> 21 then take (nat n) ds @ ''.'' @ drop (nat n) ds
         else if - 6 < n \<and> n \<le> 0 then ''0.'' @ replicate (nat (- n)) CHR ''0'' @ ds
         else (if k = 1 then ds else hd ds # CHR ''.'' # tl ds)
              @ ''e'' @ (if n - 1 < 0 then ''-'' else ''+'') @ digits_of_nat (nat \<bar>n - 1\<bar>))"

fun number_to_string :: "number \<Rightarrow> string" where
  "number_to_string (Dec m e) =
     (if m = 0 then ''0''
      else if m < 0 then CHR ''-'' # decimal_string (nat (- m)) e
      else decimal_string (nat m) e)"
| "number_to_string PosInf = ''Infinity''"
| "number_to_string NegInf = ''-Infinity''"
| "number_to_string NaN = ''NaN''"

text \<open>\<^verbatim>\<open>String(v)\<close>, also what a template literal and a property key make of \<open>v\<close>.\<close>

fun String_js :: "jsval \<Rightarrow> string" where
  "String_js JUndefined = ''undefined''"
| "String_js JNull = ''null''"
| "String_js (JBool b) = (if b then ''true'' else ''false'')"
| "String_js (JNumber n) = number_to_string n"
| "String_js (JStr s) = s"

text \<open>Truthiness: what \<^verbatim>\<open>!v\<close>, \<^verbatim>\<open>v || w\<close> and \<^verbatim>\<open>v ? a : b\<close> test.\<close>

fun truthy :: "jsval \<Rightarrow> bool" where
  "truthy JUndefined = False"
| "truthy JNull = False"
| "truthy (JBool b) = b"
| "truthy (JNumber (Dec m e)) = (m \<noteq> 0)"
| "truthy (JNumber PosInf) = True"
| "truthy (JNumber NegInf) = True"
| "truthy (JNumber NaN) = False"
| "truthy (JStr s) = (s \<noteq> [])"

text \<open>\<^verbatim>\<open>a || b\<close>.\<close>

definition or_js :: "jsval \<Rightarrow> jsval \<Rightarrow> jsval" where
  "or_js a b = (if truthy a then a else b)"

section \<open>String operations\<close>

text \<open>\<^verbatim>\<open>toLowerCase\<close>: the upper-case letters of Latin-1 are the code units 65 to 90 (A to
  Z), 192 to 214 and 216 to 222 (the accented capitals, without the multiplication sign);
  the lower-case form of each is 32 above it. Every other code unit stays.\<close>

definition is_upper_code :: "nat \<Rightarrow> bool" where
  "is_upper_code n = ((65 \<le> n \<and> n \<le> 90) \<or> (192 \<le> n \<and> n \<le> 214) \<or> (216 \<le> n \<and> n \<le> 222))"

definition lower_char :: "char \<Rightarrow> char" where
  "lower_char c = (let n = (of_char c :: nat) in if is_upper_code n then char_of (n + 32) else c)"

definition toLowerCase :: "string \<Rightarrow> string" where
  "toLowerCase s = map lower_char s"

text \<open>\<^verbatim>\<open>trim\<close>: white space and line terminators go from both ends; below 256 these are
  TAB, LF, VT, FF, CR, SPACE and the no-break space (160).\<close>

definition is_space :: "char \<Rightarrow> bool" where
  "is_space c = (let n = (of_char c :: nat) in (9 \<le> n \<and> n \<le> 13) \<or> n = 32 \<or> n = 160)"

definition trim :: "string \<Rightarrow> string" where
  "trim s = rev (dropWhile is_space (rev (dropWhile is_space s)))"

text \<open>\<^verbatim>\<open>s.includes(q)\<close>: \<open>q\<close> occurs in \<open>s\<close> as a contiguous run.\<close>

fun includes_js :: "string \<Rightarrow> string \<Rightarrow> bool" where
  "includes_js [] q = (q = [])"
| "includes_js (c # s) q = (prefix q (c # s) \<or> includes_js s q)"

text \<open>\<^verbatim>\<open>xs.join(sep)\<close>.\<close>

fun join_js :: "string \<Rightarrow> string list \<Rightarrow> string" where
  "join_js sep [] = []"
| "join_js sep [x] = x"
| "join_js sep (x # y # ys) = x @ sep @ join_js sep (y # ys)"

text \<open>\<^verbatim>\<open>s.split(sep)\<close> for a one-character separator.\<close>

fun split_js :: "char \<Rightarrow> string \<Rightarrow> string list" where
  "split_js sep [] = [[]]"
| "split_js sep (c # cs) =
     (if c = sep then [] # split_js sep cs
      else (case split_js sep cs of [] \<Rightarrow> [[c]] | p # ps \<Rightarrow> (c # p) # ps))"

definition dquote :: char where
  "dquote = CHR 0x22"

definition squote :: char where
  "squote = CHR 0x27"

definition newline :: char where
  "newline = CHR 0x0A"

section \<open>Objects\<close>

text \<open>
  An object is kept as the list of its own properties in the order \<^verbatim>\<open>Object.keys\<close>
  enumerates them: the array-index keys (canonical decimal numerals below \<open>2^32 - 1\<close>) in
  ascending numeric order first, then the other keys in the order they were first defined.
  What an object made by \<^verbatim>\<open>{}\<close> inherits from \<^verbatim>\<open>Object.prototype\<close> comes in where the
  script assigns to, or reads, a property whose name is not fixed: in \<^verbatim>\<open>toObjects\<close> and in
  the counting of \<^verbatim>\<open>drawCharts\<close>. The renderers and the charts read records under fixed
  names only, none of which \<^verbatim>\<open>Object.prototype\<close> defines, and through \<^verbatim>\<open>Object.keys\<close>
  and \<^verbatim>\<open>Object.values\<close>, which list own properties; the export reads every record under
  the keys of the first one, which in a collection of records with the same keys are own
  properties of each.
\<close>

type_synonym 'v obj = "(string \<times> 'v) list"

type_synonym object = "jsval obj"

definition is_digit :: "char \<Rightarrow> bool" where
  "is_digit c = (let n = (of_char c :: nat) in 48 \<le> n \<and> n \<le> 57)"

fun nat_of_digits :: "nat \<Rightarrow> string \<Rightarrow> nat" where
  "nat_of_digits acc [] = acc"
| "nat_of_digits acc (c # cs) = nat_of_digits (10 * acc + (of_char c - 48)) cs"

definition is_array_index :: "string \<Rightarrow> bool" where
  "is_array_index k =
     (k \<noteq> [] \<and> list_all is_digit k \<and> (k = ''0'' \<or> hd k \<noteq> CHR ''0'')
      \<and> nat_of_digits 0 k < 4294967295)"

text \<open>\<^verbatim>\<open>obj[k]\<close> for a name that \<^verbatim>\<open>Object.prototype\<close> does not define, or that is an own
  property: the own property, \<^verbatim>\<open>undefined\<close> when there is none.\<close>

definition obj_get :: "object \<Rightarrow> string \<Rightarrow> jsval" where
  "obj_get obj k = (case map_of obj k of None \<Rightarrow> JUndefined | Some v \<Rightarrow> v)"

text \<open>Where a new array-index key goes: before the first key that is not an array index or
  is a larger one.\<close>

fun insert_index :: "string \<Rightarrow> 'v \<Rightarrow> 'v obj \<Rightarrow> 'v obj" where
  "insert_index k v [] = [(k, v)]"
| "insert_index k v (p # ps) =
     (if is_array_index (fst p) \<and> nat_of_digits 0 (fst p) < nat_of_digits 0 k
      then p # insert_index k v ps
      else (k, v) # p # ps)"

text \<open>Defining the own property \<open>k\<close> with value \<open>v\<close>: an existing property keeps its place, a
  new one is added. This is what \<^verbatim>\<open>Object.fromEntries\<close> does for every key, and what an
  assignment \<^verbatim>\<open>obj[k] = v\<close> does when \<open>obj\<close> has the own property \<open>k\<close> or inherits no setter
  for it.\<close>

definition obj_set :: "'v obj \<Rightarrow> string \<Rightarrow> 'v \<Rightarrow> 'v obj" where
  "obj_set obj k v =
     (if k \<in> fst ` set obj then AList.update k v obj
      else if is_array_index k then insert_index k v obj
      else obj @ [(k, v)])"

text \<open>The names \<^verbatim>\<open>Object.prototype\<close> gives to every object made by \<^verbatim>\<open>{}\<close>: the accessor
  \<^verbatim>\<open>__proto__\<close> and eleven functions.\<close>

definition prototype_functions :: "string list" where
  "prototype_functions =
     [''constructor'', ''hasOwnProperty'', ''isPrototypeOf'', ''propertyIsEnumerable'',
      ''toLocaleString'', ''toString'', ''valueOf'', ''__defineGetter__'', ''__defineSetter__'',
      ''__lookupGetter__'', ''__lookupSetter__'']"

definition prototype_names :: "string list" where
  "prototype_names = ''__proto__'' # prototype_functions"

text \<open>\<^verbatim>\<open>obj[k] = v\<close> on an object made by \<^verbatim>\<open>{}\<close>, kept with the flag that it still has
  \<^verbatim>\<open>Object.prototype\<close> as its prototype. An own property is set. Else the name
  \<^verbatim>\<open>__proto__\<close> reaches the inherited setter, which defines no property: it takes the
  prototype away when the value is \<^verbatim>\<open>null\<close> and ignores every other value that is not an
  object. Every other name, also one of an inherited function, defines an own property.\<close>

definition assign_js :: "bool \<times> object \<Rightarrow> string \<Rightarrow> jsval \<Rightarrow> bool \<times> object" where
  "assign_js po k v =
     (case po of
        (proto, obj) \<Rightarrow>
          if k \<in> fst ` set obj then (proto, obj_set obj k v)
          else if k = ''__proto__'' \<and> proto then (v \<noteq> JNull, obj)
          else (proto, obj_set obj k v))"

definition object_keys :: "'v obj \<Rightarrow> string list" where
  "object_keys obj = map fst obj"

definition object_values :: "'v obj \<Rightarrow> 'v list" where
  "object_values obj = map snd obj"

section \<open>Rows to records: \<^verbatim>\<open>toObjects\<close>\<close>

text \<open>\<^verbatim>\<open>row[j]\<close> on an array: \<^verbatim>\<open>undefined\<close> past the end.\<close>

definition array_get :: "jsval list \<Rightarrow> nat \<Rightarrow> jsval" where
  "array_get row j = (if j < length row then row ! j else JUndefined)"

text \<open>\<^verbatim>\<open>row[j] !== undefined ? row[j] : ''\<close>.\<close>

definition cell_or_empty :: "jsval list \<Rightarrow> nat \<Rightarrow> jsval" where
  "cell_or_empty row j = (if array_get row j \<noteq> JUndefined then array_get row j else JStr [])"

text \<open>The inner loop, \<open>j\<close> running over the header positions from \<open>j\<close> on:
  \<^verbatim>\<open>obj[headers[j]] = row[j] !== undefined ? row[j] : ''\<close>.\<close>

fun fill_object ::
  "string list \<Rightarrow> jsval list \<Rightarrow> nat \<Rightarrow> bool \<times> object \<Rightarrow> bool \<times> object" where
  "fill_object [] row j po = po"
| "fill_object (h # hs) row j po = fill_object hs row (Suc j) (assign_js po h (cell_or_empty row j))"

text \<open>The argument is \<open>None\<close> for \<^verbatim>\<open>null\<close> or \<^verbatim>\<open>undefined\<close>, else the array of rows
  (row 0 the headers). A record is handed on as its own properties.\<close>

definition toObjects :: "jsval list list option \<Rightarrow> object list" where
  "toObjects rows =
     (case rows of
        None \<Rightarrow> []
      | Some [] \<Rightarrow> []
      | Some (hrow # rest) \<Rightarrow>
          (let headers = map (\<lambda>h. trim (String_js h)) hrow
           in map (\<lambda>row. snd (fill_object headers row 0 (True, []))) rest))"

section \<open>The dataset store and the page\<close>

text \<open>The four global arrays of the script, and the \<^verbatim>\<open>innerHTML\<close> of the four table
  wrappers (\<open>None\<close> when \<^verbatim>\<open>getElementById\<close> finds no such element).\<close>

record store =
  inventoryData :: "object list"
  repairsData :: "object list"
  consumablesData :: "object list"
  issuedData :: "object list"

record page = store +
  inventoryTableWrap :: "string option"
  repairsTableWrap :: "string option"
  consumableTableWrap :: "string option"
  issuedTableWrap :: "string option"


section \<open>Table rendering\<close>

text \<open>\<^verbatim>\<open>escapeHtml\<close>: the replacement table of the regular expression \<^verbatim>\<open>/[&<>"']/g\<close>.\<close>

definition escape_char :: "char \<Rightarrow> string" where
  \<open>escape_char c =
     (if c = CHR ''&'' then ''&amp;''
      else if c = CHR ''<'' then ''&lt;''
      else if c = CHR ''>'' then ''&gt;''
      else if c = dquote then ''&quot;''
      else if c = squote then ''&#39;''
      else [c])\<close>

definition escapeHtml :: "jsval \<Rightarrow> string" where
  "escapeHtml s = concat (map escape_char (String_js (or_js s (JStr []))))"

text \<open>The filter predicate of the two searchable tables:
  \<^verbatim>\<open>if(!q) return true; const qq = q.toLowerCase();
  return Object.values(r).some(v => String(v).toLowerCase().includes(qq))\<close>.\<close>

definition row_matches :: "string \<Rightarrow> object \<Rightarrow> bool" where
  "row_matches q r =
     (if q = [] then True
      else (let qq = toLowerCase q
            in list_ex (\<lambda>v. includes_js (toLowerCase (String_js v)) qq) (object_values r)))"

text \<open>\<^verbatim>\<open>r[h] || r[h.toLowerCase()] || ''\<close>.\<close>

definition cell_value :: "object \<Rightarrow> string \<Rightarrow> jsval" where
  "cell_value r h = or_js (or_js (obj_get r h) (obj_get r (toLowerCase h))) (JStr [])"

definition table_open :: "string list \<Rightarrow> string" where
  \<open>table_open headers =
     ''<table class="table"><thead><tr>''
     @ join_js [] (map (\<lambda>h. ''<th>'' @ h @ ''</th>'') headers)
     @ ''</tr></thead><tbody>''\<close>

definition table_close :: string where
  "table_close = ''</tbody></table>''"

text \<open>A cell of the inventory and repairs tables: the invoice column is a hyperlink when it
  has a truthy value.\<close>

definition link_cell :: "object \<Rightarrow> string \<Rightarrow> string" where
  \<open>link_cell r h =
     (let v = cell_value r h
      in if h = ''Invoice Link'' \<and> truthy v
         then ''<td><a href="'' @ String_js v @ ''" target="_blank">Invoice</a></td>''
         else ''<td>'' @ escapeHtml v @ ''</td>'')\<close>

text \<open>A cell of the consumables and issued tables.\<close>

definition plain_cell :: "object \<Rightarrow> string \<Rightarrow> string" where
  "plain_cell r h = (let v = cell_value r h in ''<td>'' @ escapeHtml v @ ''</td>'')"

definition table_row :: "(object \<Rightarrow> string \<Rightarrow> string) \<Rightarrow> string list \<Rightarrow> object \<Rightarrow> string" where
  "table_row cell headers r = ''<tr>'' @ concat (map (cell r) headers) @ ''</tr>''"

definition table_html ::
  "(object \<Rightarrow> string \<Rightarrow> string) \<Rightarrow> string list \<Rightarrow> object list \<Rightarrow> string" where
  "table_html cell headers rows =
     table_open headers @ concat (map (table_row cell headers) rows) @ table_close"

definition inventory_headers :: "string list" where
  "inventory_headers =
     [''System Number'', ''Item Type'', ''Model'', ''Serial Number'', ''Processor'', ''RAM'',
      ''Storage'', ''Purchase Date'', ''Location'', ''Condition'', ''Notes'', ''Invoice Link'']"

definition repairs_headers :: "string list" where
  "repairs_headers =
     [''System Number'', ''Repair Date'', ''Issue Description'', ''Parts Replaced'',
      ''Estimated Cost'', ''Status'', ''Repaired By'', ''Actual Cost'', ''Invoice Link'']"

definition consumables_headers :: "string list" where
  "consumables_headers = [''Consumable Name'', ''Date'', ''Quantity'', ''Unit'', ''Notes'']"

definition issued_headers :: "string list" where
  "issued_headers = [''Item ID'', ''Item Name'', ''Issued To'', ''Quantity'', ''Date'', ''Remarks'']"

definition renderInventoryTable :: "string \<Rightarrow> page \<Rightarrow> page" where
  "renderInventoryTable q pg =
     (case inventoryTableWrap pg of
        None \<Rightarrow> pg
      | Some old \<Rightarrow>
          (let rows = filter (row_matches q) (inventoryData pg)
           in pg\<lparr>inventoryTableWrap := Some (table_html link_cell inventory_headers rows)\<rparr>))"

definition renderRepairsTable :: "string \<Rightarrow> page \<Rightarrow> page" where
  "renderRepairsTable q pg =
     (case repairsTableWrap pg of
        None \<Rightarrow> pg
      | Some old \<Rightarrow>
          (let rows = filter (row_matches q) (repairsData pg)
           in pg\<lparr>repairsTableWrap := Some (table_html link_cell repairs_headers rows)\<rparr>))"

definition renderConsumablesTable :: "page \<Rightarrow> page" where
  "renderConsumablesTable pg =
     (case consumableTableWrap pg of
        None \<Rightarrow> pg
      | Some old \<Rightarrow>
          pg\<lparr>consumableTableWrap :=
               Some (table_html plain_cell consumables_headers (consumablesData pg))\<rparr>)"

definition renderIssuedTable :: "page \<Rightarrow> page" where
  "renderIssuedTable pg =
     (case issuedTableWrap pg of
        None \<Rightarrow> pg
      | Some old \<Rightarrow>
          pg\<lparr>issuedTableWrap := Some (table_html plain_cell issued_headers (issuedData pg))\<rparr>)"

section \<open>Chart data: \<^verbatim>\<open>drawCharts\<close>\<close>

text \<open>The test of the pie chart's filter:
  \<^verbatim>\<open>String(i.Condition || '').toLowerCase().includes('work')\<close>.\<close>

definition is_working :: "object \<Rightarrow> bool" where
  "is_working i =
     includes_js (toLowerCase (String_js (or_js (obj_get i ''Condition'') (JStr [])))) ''work''"

text \<open>The two data rows handed to the pie chart, after the title row.\<close>

definition pie_rows :: "object list \<Rightarrow> (string \<times> int) list" where
  "pie_rows inventory =
     (let working = int (length (filter is_working inventory));
          under = max 0 (int (length inventory) - working)
      in [(''Working'', working), (''Under Repair'', under)])"

text \<open>\<^verbatim>\<open>r['System Number'] || r['systemNumber'] || 'Unknown'\<close>, as the property key it is
  used for.\<close>

definition system_key :: "object \<Rightarrow> string" where
  "system_key r =
     String_js (or_js (or_js (obj_get r ''System Number'') (obj_get r ''systemNumber''))
                      (JStr ''Unknown''))"

text \<open>\<^verbatim>\<open>counts[k]\<close> for a name that \<^verbatim>\<open>Object.prototype\<close> does not define, with 0 for
  \<^verbatim>\<open>undefined\<close> as in \<^verbatim>\<open>counts[s]||0\<close>.\<close>

definition count_of :: "int obj \<Rightarrow> string \<Rightarrow> int" where
  "count_of counts k = (case map_of counts k of None \<Rightarrow> 0 | Some n \<Rightarrow> n)"

text \<open>\<^verbatim>\<open>counts[s] = (counts[s]||0)+1\<close> on the object \<open>counts\<close> made by \<^verbatim>\<open>{}\<close>. For the name
  \<^verbatim>\<open>__proto__\<close> the read gives \<^verbatim>\<open>Object.prototype\<close>, the sum is a string, and the
  inherited setter ignores a string: \<open>counts\<close> stays as it is. (The names of the inherited
  functions are dealt with in \<open>bar_rows\<close>.)\<close>

definition bump :: "int obj \<Rightarrow> string \<Rightarrow> int obj" where
  "bump counts s = (if s = ''__proto__'' then counts else obj_set counts s (count_of counts s + 1))"

definition count_systems :: "object list \<Rightarrow> int obj" where
  "count_systems repairs = foldl (\<lambda>counts r. bump counts (system_key r)) [] repairs"

text \<open>The data rows handed to the bar chart, after the title row. The comparator
  \<^verbatim>\<open>(a,b) => counts[b]-counts[a]\<close> orders by descending count, and \<^verbatim>\<open>sort\<close> is stable.
  The result is \<open>None\<close> when a system bears the name of a function of \<^verbatim>\<open>Object.prototype\<close>:
  then \<^verbatim>\<open>counts[s]||0\<close> is that function, the stored "count" is the function's source text
  followed by 1, the comparator yields NaN, and both the text and the resulting order are
  left to the engine.\<close>

definition bar_rows :: "object list \<Rightarrow> (string \<times> int) list option" where
  "bar_rows repairs =
     (if list_ex (\<lambda>r. system_key r \<in> set prototype_functions) repairs then None
      else (let counts = count_systems repairs;
                top = take 10 (sort_key (\<lambda>k. - count_of counts k) (object_keys counts));
                rows = map (\<lambda>k. (k, count_of counts k)) top
            in Some (if rows = [] then [(''None'', 0)] else rows)))"

section \<open>Form submission\<close>

text \<open>A file chosen in a file input: its name, its MIME type, and what
  \<^verbatim>\<open>readAsDataURL\<close> delivers (\<open>None\<close> when the read fails and the promise of
  \<^verbatim>\<open>fileToBase64\<close> is rejected).\<close>

record js_file =
  file_name :: string
  file_type :: string
  file_dataUrl :: "string option"

text \<open>A value of the object built from the form: the text of a field or a file; after the
  quantity is coerced, a number.\<close>

datatype formval = Prim jsval | File js_file

record invoice =
  name :: string
  b64 :: string

text \<open>The command objects handed to \<^verbatim>\<open>apiPost\<close>: \<^verbatim>\<open>{action, data, invoice}\<close> with
  \<open>None\<close> for \<^verbatim>\<open>invoice: null\<close>, and \<^verbatim>\<open>{action, data}\<close>.\<close>

datatype payload =
    InvoiceCommand string "formval obj" "invoice option"
  | DataCommand string "formval obj"

text \<open>What a handler does that can be seen from outside, in order.\<close>

datatype effect =
    PreventDefault
  | Alert string
  | Post payload
  | LoadAllData
  | RenderInventoryTable
  | RenderRepairsTable
  | RenderConsumablesTable
  | RenderIssuedTable
  | DrawCharts
  | PopulateIssueSelect
  | ResetForm

text \<open>The calls that reach the network: the POST of \<^verbatim>\<open>apiPost\<close> and the four GETs of
  \<^verbatim>\<open>loadAllData\<close>.\<close>

fun is_network_call :: "effect \<Rightarrow> bool" where
  "is_network_call (Post p) = True"
| "is_network_call LoadAllData = True"
| "is_network_call e = False"

text \<open>The remote side: the response text to a POST (\<open>None\<close> when \<^verbatim>\<open>fetch\<close> rejects), and
  whether the reload that follows goes through.\<close>

record gateway =
  respond :: "payload \<Rightarrow> string option"
  reload_ok :: bool

text \<open>\<^verbatim>\<open>Object.fromEntries(fd.entries())\<close>.\<close>

definition fromEntries :: "(string \<times> 'v) list \<Rightarrow> 'v obj" where
  "fromEntries entries = foldl (\<lambda>obj (k, v). obj_set obj k v) [] entries"

text \<open>\<^verbatim>\<open>fileToBase64\<close>: \<^verbatim>\<open>dataUrl.split(',')[1]\<close>, \<open>None\<close> when the promise is rejected.\<close>

definition fileToBase64 :: "js_file \<Rightarrow> jsval option" where
  "fileToBase64 f =
     (case file_dataUrl f of
        None \<Rightarrow> None
      | Some dataUrl \<Rightarrow>
          (let parts = split_js CHR '','' dataUrl
           in Some (if 1 < length parts then JStr (parts ! 1) else JUndefined)))"

text \<open>From \<^verbatim>\<open>await apiPost(payload)\<close> to the end of a handler:
  \<^verbatim>\<open>alert(res); await loadAllData(); ...\<close>.\<close>

definition post_and_refresh :: "gateway \<Rightarrow> payload \<Rightarrow> effect list \<Rightarrow> effect list" where
  "post_and_refresh gw p after =
     Post p #
     (case respond gw p of
        None \<Rightarrow> []
      | Some res \<Rightarrow> Alert res # LoadAllData # (if reload_ok gw then after else []))"

text \<open>\<^verbatim>\<open>filePayload ? { name: file.name, b64: filePayload } : null\<close>.\<close>

definition invoice_of :: "js_file \<Rightarrow> jsval \<Rightarrow> invoice option" where
  "invoice_of f filePayload =
     (if truthy filePayload then Some \<lparr>name = file_name f, b64 = String_js filePayload\<rparr> else None)"

text \<open>The submit handler of the add-inventory form, on a page that has the file input;
  \<open>chosen\<close> is \<^verbatim>\<open>document.getElementById('purchaseInvoice').files[0]\<close>, \<open>None\<close> when no
  file is attached.\<close>

definition addInventoryForm_submit ::
  "gateway \<Rightarrow> (string \<times> formval) list \<Rightarrow> js_file option \<Rightarrow> effect list" where
  "addInventoryForm_submit gw entries chosen =
     PreventDefault #
     (let obj = fromEntries entries;
          after = [RenderInventoryTable, ResetForm]
      in case chosen of
           None \<Rightarrow> post_and_refresh gw (InvoiceCommand ''addInventory'' obj None) after
         | Some f \<Rightarrow>
             if file_type f \<noteq> ''application/pdf'' then [Alert ''Only PDF invoices allowed'']
             else (case fileToBase64 f of
                     None \<Rightarrow> []
                   | Some filePayload \<Rightarrow>
                       post_and_refresh gw
                         (InvoiceCommand ''addInventory'' obj (invoice_of f filePayload)) after))"

text \<open>The submit handler of the add-repair form, on a page that has the file input;
  \<open>chosen\<close> is \<^verbatim>\<open>document.getElementById('repairInvoice').files[0]\<close>, \<open>None\<close> when no
  file is attached.\<close>

definition addRepairForm_submit ::
  "gateway \<Rightarrow> (string \<times> formval) list \<Rightarrow> js_file option \<Rightarrow> effect list" where
  "addRepairForm_submit gw entries chosen =
     PreventDefault #
     (let obj = fromEntries entries;
          after = [RenderRepairsTable, RenderInventoryTable, DrawCharts, ResetForm]
      in case chosen of
           None \<Rightarrow> post_and_refresh gw (InvoiceCommand ''addRepair'' obj None) after
         | Some f \<Rightarrow>
             if file_type f \<noteq> ''application/pdf'' then [Alert ''Only PDF invoices allowed'']
             else (case fileToBase64 f of
                     None \<Rightarrow> []
                   | Some filePayload \<Rightarrow>
                       post_and_refresh gw
                         (InvoiceCommand ''addRepair'' obj (invoice_of f filePayload)) after))"

text \<open>\<^verbatim>\<open>Number(x)\<close>. What it makes of a string is the engine's numeric-literal reader,
  taken as the parameter \<open>str_num\<close>; a file is an object whose string form is no numeral.\<close>

fun Number_js :: "(string \<Rightarrow> number) \<Rightarrow> formval \<Rightarrow> number" where
  "Number_js str_num (Prim JUndefined) = NaN"
| "Number_js str_num (Prim JNull) = Num 0"
| "Number_js str_num (Prim (JBool b)) = Num (if b then 1 else 0)"
| "Number_js str_num (Prim (JNumber n)) = n"
| "Number_js str_num (Prim (JStr s)) = str_num s"
| "Number_js str_num (File f) = NaN"

text \<open>\<^verbatim>\<open>obj.qty || 0\<close>.\<close>

definition qty_or_zero :: "formval obj \<Rightarrow> formval" where
  "qty_or_zero obj =
     (case map_of obj ''qty'' of
        None \<Rightarrow> Prim (JNumber (Num 0))
      | Some (Prim v) \<Rightarrow> Prim (or_js v (JNumber (Num 0)))
      | Some (File f) \<Rightarrow> File f)"

text \<open>\<^verbatim>\<open>n <= 0\<close> on a number: false for NaN.\<close>

fun le_zero :: "number \<Rightarrow> bool" where
  "le_zero (Dec m e) = (m \<le> 0)"
| "le_zero PosInf = False"
| "le_zero NegInf = True"
| "le_zero NaN = False"

text \<open>The submit handler of the issue-consumable form.\<close>

definition issueForm_submit ::
  "(string \<Rightarrow> number) \<Rightarrow> gateway \<Rightarrow> (string \<times> formval) list \<Rightarrow> effect list" where
  "issueForm_submit str_num gw entries =
     PreventDefault #
     (let obj = fromEntries entries;
          qty = Number_js str_num (qty_or_zero obj);
          obj = obj_set obj ''qty'' (Prim (JNumber qty))
      in if le_zero qty then [Alert ''Invalid quantity'']
         else post_and_refresh gw (DataCommand ''issueConsumable'' obj)
                [RenderConsumablesTable, RenderIssuedTable, PopulateIssueSelect, ResetForm])"

text \<open>The engine's reader restricted to whole decimal numerals of at most 15 digits and to
  the infinities, for running the handler on concrete forms: white space around the numeral
  is ignored, the empty string reads as 0, an optional sign and decimal digits give the
  integer, and text that is no numeral, such as \<^verbatim>\<open>"abc"\<close>, gives NaN. Longer numerals and
  numerals with a fraction, an exponent or a radix prefix are not in this fragment.\<close>

definition decimal_number :: "string \<Rightarrow> number" where
  "decimal_number s =
     (let t = trim s
      in if t = [] then Num 0
         else if t = ''Infinity'' \<or> t = ''+Infinity'' then PosInf
         else if t = ''-Infinity'' then NegInf
         else if 15 < length t then NaN
         else if list_all is_digit t then Num (int (nat_of_digits 0 t))
         else if hd t = CHR ''-'' \<and> tl t \<noteq> [] \<and> list_all is_digit (tl t)
              then Num (- int (nat_of_digits 0 (tl t)))
         else if hd t = CHR ''+'' \<and> tl t \<noteq> [] \<and> list_all is_digit (tl t)
              then Num (int (nat_of_digits 0 (tl t)))
         else NaN)"

section \<open>CSV export: \<^verbatim>\<open>downloadCsvFromArray\<close>\<close>

text \<open>\<^verbatim>\<open>`"${String(r[h]||'').replace(/"/g,'""')}"`\<close>.\<close>

definition double_quotes :: "string \<Rightarrow> string" where
  "double_quotes s = concat (map (\<lambda>c. if c = dquote then [dquote, dquote] else [c]) s)"

definition csv_field :: "jsval \<Rightarrow> string" where
  "csv_field v = dquote # double_quotes (String_js (or_js v (JStr []))) @ [dquote]"

text \<open>The text of the file, for a non-empty array.\<close>

definition csv_text :: "object list \<Rightarrow> string" where
  "csv_text arr =
     (let headers = object_keys (hd arr)
      in join_js [newline]
           (join_js '','' headers
            # map (\<lambda>r. join_js '','' (map (\<lambda>h. csv_field (obj_get r h)) headers)) arr))"

datatype download = NoData | Download string string

text \<open>The argument is \<open>None\<close> for \<^verbatim>\<open>null\<close> or \<^verbatim>\<open>undefined\<close>. \<open>NoData\<close> is the alert
  \<^verbatim>\<open>'No data'\<close>; \<open>Download filename csv\<close> is the file offered to the browser.\<close>

definition downloadCsvFromArray :: "object list option \<Rightarrow> string \<Rightarrow> download" where
  "downloadCsvFromArray arr filename =
     (case arr of
        None \<Rightarrow> NoData
      | Some [] \<Rightarrow> NoData
      | Some (r # rs) \<Rightarrow> Download filename (csv_text (r # rs)))"

section \<open>Reading a CSV text back\<close>

text \<open>
  Modelled from the spec: the script has no reader for the text it exports (its bulk upload
  hands the file to a library), so the reader follows the spec's words, "a standard
  CSV-parsing contract: header row detected, empty lines skipped": fields are separated by
  commas and lines by newlines; a field that starts with a double quote runs to its closing
  double quote, with a doubled double quote standing for one; the first line that is not
  empty is the header row, and each later non-empty line gives a record pairing the header
  names with the fields of the line, in order.
\<close>

datatype scan_state = FieldStart | InPlain | InQuoted | AfterQuote

text \<open>\<open>fld\<close> is the field read so far, \<open>row\<close> the fields of the current line, \<open>rows\<close> the lines
  done. \<open>None\<close> is a text that is not well-formed.\<close>

fun csv_scan ::
  "scan_state \<Rightarrow> string \<Rightarrow> string list \<Rightarrow> string list list \<Rightarrow> string \<Rightarrow> string list list option"
where
  "csv_scan st fld row rows [] =
     (case st of
        InQuoted \<Rightarrow> None
      | FieldStart \<Rightarrow> Some (if row = [] then rows else rows @ [row @ [fld]])
      | _ \<Rightarrow> Some (rows @ [row @ [fld]]))"
| "csv_scan FieldStart fld row rows (c # cs) =
     (if c = dquote then csv_scan InQuoted [] row rows cs
      else if c = CHR '','' then csv_scan FieldStart [] (row @ [[]]) rows cs
      else if c = newline
           then csv_scan FieldStart [] [] (if row = [] then rows else rows @ [row @ [[]]]) cs
      else csv_scan InPlain [c] row rows cs)"
| "csv_scan InPlain fld row rows (c # cs) =
     (if c = CHR '','' then csv_scan FieldStart [] (row @ [fld]) rows cs
      else if c = newline then csv_scan FieldStart [] [] (rows @ [row @ [fld]]) cs
      else csv_scan InPlain (fld @ [c]) row rows cs)"
| "csv_scan InQuoted fld row rows (c # cs) =
     (if c = dquote then csv_scan AfterQuote fld row rows cs
      else csv_scan InQuoted (fld @ [c]) row rows cs)"
| "csv_scan AfterQuote fld row rows (c # cs) =
     (if c = dquote then csv_scan InQuoted (fld @ [dquote]) row rows cs
      else if c = CHR '','' then csv_scan FieldStart [] (row @ [fld]) rows cs
      else if c = newline then csv_scan FieldStart [] [] (rows @ [row @ [fld]]) cs
      else None)"

definition parse_csv :: "string \<Rightarrow> (string \<times> string) list list option" where
  "parse_csv csv =
     (case csv_scan FieldStart [] [] [] csv of
        None \<Rightarrow> None
      | Some [] \<Rightarrow> Some []
      | Some (header # lines) \<Rightarrow> Some (map (zip header) lines))"

section \<open>The words of the specification\<close>

text \<open>The letters of Latin-1, each capital with its small form: A to Z, and the accented
  letters from 192 (capital A with grave) on.\<close>

definition capital_letters :: string where
  "capital_letters =
     ''ABCDEFGHIJKLMNOPQRSTUVWXYZ'' @
     [CHR 0xC0, CHR 0xC1, CHR 0xC2, CHR 0xC3, CHR 0xC4, CHR 0xC5, CHR 0xC6, CHR 0xC7,
      CHR 0xC8, CHR 0xC9, CHR 0xCA, CHR 0xCB, CHR 0xCC, CHR 0xCD, CHR 0xCE, CHR 0xCF,
      CHR 0xD0, CHR 0xD1, CHR 0xD2, CHR 0xD3, CHR 0xD4, CHR 0xD5, CHR 0xD6, CHR 0xD8,
      CHR 0xD9, CHR 0xDA, CHR 0xDB, CHR 0xDC, CHR 0xDD, CHR 0xDE]"

definition small_letters :: string where
  "small_letters =
     ''abcdefghijklmnopqrstuvwxyz'' @
     [CHR 0xE0, CHR 0xE1, CHR 0xE2, CHR 0xE3, CHR 0xE4, CHR 0xE5, CHR 0xE6, CHR 0xE7,
      CHR 0xE8, CHR 0xE9, CHR 0xEA, CHR 0xEB, CHR 0xEC, CHR 0xED, CHR 0xEE, CHR 0xEF,
      CHR 0xF0, CHR 0xF1, CHR 0xF2, CHR 0xF3, CHR 0xF4, CHR 0xF5, CHR 0xF6, CHR 0xF8,
      CHR 0xF9, CHR 0xFA, CHR 0xFB, CHR 0xFC, CHR 0xFD, CHR 0xFE]"

text \<open>Two characters are the same up to letter case when they are equal or are the capital
  and the small form of one letter. Two strings are the same up to letter case when they
  have the same length and their characters are, position by position; \<open>q\<close> is a
  case-insensitive substring of \<open>s\<close> when some window of \<open>s\<close> is the same as \<open>q\<close> up to letter
  case.\<close>

definition same_letter :: "char \<Rightarrow> char \<Rightarrow> bool" where
  "same_letter a b =
     (a = b \<or> (a, b) \<in> set (zip capital_letters small_letters)
            \<or> (b, a) \<in> set (zip capital_letters small_letters))"

definition same_ignoring_case :: "string \<Rightarrow> string \<Rightarrow> bool" where
  "same_ignoring_case a b = list_all2 same_letter a b"

definition ci_substring :: "string \<Rightarrow> string \<Rightarrow> bool" where
  "ci_substring q s =
     list_ex (\<lambda>i. same_ignoring_case (take (length q) (drop i s)) q) [0..<Suc (length s)]"


text \<open>A record counts as working when the string form of its Condition field contains
  "work" as a case-insensitive substring.\<close>

definition condition_has_work :: "object \<Rightarrow> bool" where
  "condition_has_work r = ci_substring ''work'' (String_js (obj_get r ''Condition''))"

text \<open>A table cell as the specification describes it: the escaped text of the cell value,
  but for a non-empty Invoice Link value of a table with links, which becomes the target of
  a hyperlink as it is.\<close>

definition shown_cell :: "bool \<Rightarrow> object \<Rightarrow> string \<Rightarrow> string" where
  \<open>shown_cell links r h =
     (if links \<and> h = ''Invoice Link'' \<and> cell_value r h \<noteq> JStr []
      then ''<td><a href="'' @ String_js (cell_value r h) @ ''" target="_blank">Invoice</a></td>''
      else ''<td>'' @ escapeHtml (cell_value r h) @ ''</td>'')\<close>

definition shown_table :: "bool \<Rightarrow> string list \<Rightarrow> object list \<Rightarrow> string" where
  "shown_table links hs rows =
     table_open hs
     @ concat (map (\<lambda>r. ''<tr>'' @ concat (map (shown_cell links r) hs) @ ''</tr>'') rows)
     @ table_close"

text \<open>The system a repair record belongs to when "present" is read as "the record has the
  key": the value under \<^verbatim>\<open>System Number\<close> when the record has that key, else the value
  under \<^verbatim>\<open>systemNumber\<close> when it has that one, else "Unknown".\<close>

definition present_system :: "object \<Rightarrow> string" where
  "present_system r =
     (if ''System Number'' \<in> set (object_keys r) then String_js (obj_get r ''System Number'')
      else if ''systemNumber'' \<in> set (object_keys r) then String_js (obj_get r ''systemNumber'')
      else ''Unknown'')"

text \<open>A dataset whose systems keep clear of the names that \<^verbatim>\<open>Object.prototype\<close> defines.\<close>

definition plain_systems :: "object list \<Rightarrow> bool" where
  "plain_systems repairs = list_all (\<lambda>r. system_key r \<notin> set prototype_names) repairs"

text \<open>The number of repair records of a system.\<close>

definition group_count :: "object list \<Rightarrow> string \<Rightarrow> int" where
  "group_count repairs k = int (length (filter (\<lambda>r. system_key r = k) repairs))"

text \<open>The systems of the bar chart in the order of its rows.\<close>

definition top_systems :: "object list \<Rightarrow> string list" where
  "top_systems repairs =
     take 10 (sort_key (\<lambda>k. - group_count repairs k) (object_keys (count_systems repairs)))"

text \<open>Repairs of eleven systems, two of them of system S11.\<close>

definition sample_repairs :: "object list" where
  "sample_repairs =
     map (\<lambda>s. [(''System Number'', JStr s)])
       [''S1'', ''S2'', ''S3'', ''S4'', ''S5'', ''S6'', ''S7'', ''S8'', ''S9'', ''S10'', ''S11'',
        ''S11'']"

text \<open>A key that can stand in the header line as it is: it has no comma, no double quote and
  no line break. The keys of a record can head a CSV text when there is at least one, they
  are not the single empty key (whose header line would be an empty line), and each can
  stand as it is.\<close>

definition plain_key :: "string \<Rightarrow> bool" where
  "plain_key k = (CHR '','' \<notin> set k \<and> dquote \<notin> set k \<and> newline \<notin> set k)"

definition csv_plain_keys :: "string list \<Rightarrow> bool" where
  "csv_plain_keys ks = (ks \<noteq> [] \<and> ks \<noteq> [[]] \<and> list_all plain_key ks)"

text \<open>What a record is expected to come back as: under each header name the string form of
  the record's value, the empty string for a falsy value.\<close>

definition exported_record :: "string list \<Rightarrow> object \<Rightarrow> (string \<times> string) list" where
  "exported_record hs r = map (\<lambda>h. (h, String_js (or_js (obj_get r h) (JStr [])))) hs"

text \<open>A field between double quotes, its own double quotes doubled.\<close>

definition quoted :: "string \<Rightarrow> string" where
  "quoted s = dquote # double_quotes s @ [dquote]"

text \<open>A stock list of two records; an item name holds a double quote and a comma, a quantity
  is 0.\<close>

definition sample_stock :: "object list" where
  "sample_stock =
     [[(''Item'', JStr (''12'' @ [dquote] @ '' rule, steel'')), (''Quantity'', JNumber (Num 0))],
      [(''Item'', JStr ''pen''), (''Quantity'', JNumber (Num 12))]]"

text \<open>The own properties the inner loop of \<^verbatim>\<open>toObjects\<close> leaves when every assignment
  defines a property, as is the case when no header is \<^verbatim>\<open>__proto__\<close>.\<close>

fun define_all :: "string list \<Rightarrow> jsval list \<Rightarrow> nat \<Rightarrow> object \<Rightarrow> object" where
  "define_all [] row j obj = obj"
| "define_all (h # hs) row j obj = define_all hs row (Suc j) (obj_set obj h (cell_or_empty row j))"

text \<open>The code units of the capital letters.\<close>

definition upper_codes :: "nat list" where
  "upper_codes = [65..<91] @ [192..<215] @ [216..<223]"

section \<open>Evaluation\<close>

lemma replicate_numeral_unfold: "replicate (numeral k) x = x # replicate (pred_numeral k) x"
  by (simp add: numeral_eq_Suc)

lemmas lower_eval = lower_char_def is_upper_code_def char_of_def bit_Suc_0_iff Let_def

lemmas number_eval = decimal_string_def digits_of_nat.simps digit_char_def Let_def
  replicate_numeral_unfold

section \<open>Properties of objects\<close>

lemma keys_insert_index: "set (map fst (insert_index k v obj)) = insert k (set (map fst obj))"
  by (induction obj) auto

lemma keys_obj_set: "set (object_keys (obj_set obj k v)) = insert k (set (object_keys obj))"
proof (cases "k \<in> fst ` set obj")
  case True
  then have "map fst (AList.update k v obj) = map fst obj"
    by (simp add: update_keys)
  with True show ?thesis
    unfolding obj_set_def object_keys_def by (simp add: insert_absorb)
next
  case False
  then show ?thesis
    unfolding obj_set_def object_keys_def using keys_insert_index[of k v obj] by simp
qed

lemma distinct_insert_index:
  "k \<notin> fst ` set obj \<Longrightarrow> distinct (map fst obj) \<Longrightarrow> distinct (map fst (insert_index k v obj))"
proof (induction obj)
  case Nil then show ?case by simp
next
  case (Cons p ps)
  have "set (map fst (insert_index k v ps)) = insert k (set (map fst ps))"
    by (rule keys_insert_index)
  with Cons show ?case by auto
qed

lemma distinct_obj_set:
  "distinct (object_keys obj) \<Longrightarrow> distinct (object_keys (obj_set obj k v))"
  unfolding obj_set_def object_keys_def by (auto simp: distinct_update distinct_insert_index)

lemma map_of_insert_index:
  "k \<notin> fst ` set obj \<Longrightarrow> map_of (insert_index k v obj) = (map_of obj)(k \<mapsto> v)"
proof (induction obj)
  case Nil then show ?case by simp
next
  case (Cons p ps)
  obtain a b where p: "p = (a, b)" by (cases p)
  with Cons.prems have ne: "a \<noteq> k" by auto
  from Cons p have IH: "map_of (insert_index k v ps) = (map_of ps)(k \<mapsto> v)" by auto
  show ?case using ne by (auto simp: p IH fun_eq_iff)
qed

lemma map_of_append_new:
  "k \<notin> fst ` set obj \<Longrightarrow> [k \<mapsto> v] ++ map_of obj = (map_of obj)(k \<mapsto> v)"
proof -
  assume "k \<notin> fst ` set obj"
  then have "map_of obj k = None" by (simp add: map_of_eq_None_iff)
  then show ?thesis by (auto simp: map_add_def fun_eq_iff split: option.splits)
qed

lemma map_of_obj_set: "map_of (obj_set obj k v) = (map_of obj)(k \<mapsto> v)"
  unfolding obj_set_def
  by (simp add: update_conv' map_of_insert_index map_of_append_new)

lemma length_insert_index: "length (insert_index k v obj) = Suc (length obj)"
  by (induction obj) auto

lemma length_update_present: "k \<in> fst ` set obj \<Longrightarrow> length (AList.update k v obj) = length obj"
  by (induction obj) auto

lemma length_obj_set:
  "length (obj_set obj k v) = (if k \<in> fst ` set obj then length obj else Suc (length obj))"
  unfolding obj_set_def by (simp add: length_insert_index length_update_present)

lemma define_all_keys:
  "set (object_keys (define_all hs row j obj)) = set hs \<union> set (object_keys obj)"
  by (induction hs row j obj rule: define_all.induct) (auto simp: keys_obj_set)

lemma define_all_distinct:
  "distinct (object_keys obj) \<Longrightarrow> distinct (object_keys (define_all hs row j obj))"
  by (induction hs row j obj rule: define_all.induct) (auto simp: distinct_obj_set)

lemma define_all_length:
  "distinct hs \<Longrightarrow> set hs \<inter> set (object_keys obj) = {} \<Longrightarrow>
   length (define_all hs row j obj) = length obj + length hs"
proof (induction hs row j obj rule: define_all.induct)
  case (1 row j obj)
  then show ?case by simp
next
  case (2 h hs row j obj)
  have "set hs \<inter> set (object_keys (obj_set obj h (cell_or_empty row j))) = {}"
    using 2 by (auto simp: keys_obj_set)
  with 2 show ?case by (auto simp: length_obj_set object_keys_def)
qed

lemma define_all_other:
  "k \<notin> set hs \<Longrightarrow> map_of (define_all hs row j obj) k = map_of obj k"
  by (induction hs row j obj rule: define_all.induct) (auto simp: map_of_obj_set)

lemma define_all_at:
  "distinct hs \<Longrightarrow> i < length hs \<Longrightarrow>
   map_of (define_all hs row j obj) (hs ! i) = Some (cell_or_empty row (j + i))"
proof (induction hs row j obj arbitrary: i rule: define_all.induct)
  case (1 row j obj)
  then show ?case by simp
next
  case (2 h hs row j obj)
  show ?case
  proof (cases i)
    case 0
    with 2 show ?thesis by (simp add: define_all_other map_of_obj_set)
  next
    case (Suc i')
    with 2 show ?thesis by simp
  qed
qed

lemma fill_object_plain:
  "''__proto__'' \<notin> set hs \<Longrightarrow> fill_object hs row j (p, obj) = (p, define_all hs row j obj)"
  by (induction hs arbitrary: j obj) (auto simp: assign_js_def)

section \<open>Normalization\<close>

text \<open>
  C8. Normalization of an input that is \<^verbatim>\<open>null\<close> or \<^verbatim>\<open>undefined\<close>, of the empty array
  and of an array with the header row only gives the empty sequence of records.
\<close>

theorem toObjects_degenerate:
  "toObjects None = [] \<and> toObjects (Some []) = [] \<and> toObjects (Some [hrow]) = []"
  by (simp add: toObjects_def)

text \<open>
  C1, as stated, at a header row that names a column twice, and at a header row with the
  column \<^verbatim>\<open>__proto__\<close>: the two equal header cells give one key, and the assignment to
  \<^verbatim>\<open>__proto__\<close> defines no property, so either record has one key where the header row has
  two cells.
\<close>

theorem toObjects_duplicate_header:
  "toObjects (Some [[JStr ''a'', JStr ''a''], [JStr ''1'', JStr ''2'']]) = [[(''a'', JStr ''2'')]] \<and>
   length (object_keys [(''a'', JStr ''2'')]) \<noteq> length [JStr ''a'', JStr ''a''] \<and>
   toObjects (Some [[JStr ''__proto__'', JStr ''a''], [JStr ''1'', JStr ''2'']])
     = [[(''a'', JStr ''2'')]] \<and>
   length (object_keys [(''a'', JStr ''2'')]) \<noteq> length [JStr ''__proto__'', JStr ''a'']"
  by (simp add: toObjects_def assign_js_def obj_set_def cell_or_empty_def array_get_def trim_def
      is_space_def object_keys_def)

text \<open>
  C1, amended. For a header row \<open>H\<close> whose trimmed strings are pairwise distinct, none of them
  \<^verbatim>\<open>__proto__\<close>, and data rows \<open>R\<close>, normalization gives exactly \<open>length R\<close> records, in row
  order; each record has exactly \<open>length H\<close> keys, the keys are the trimmed strings of the
  header row, and under the key of header position \<open>j\<close> stands the cell of the row at \<open>j\<close>, or
  the empty string when the row has no cell there (it is shorter than the header, or the cell
  is \<^verbatim>\<open>undefined\<close>). So the header row of the string "id" between a no-break space and a
  space and of the number 7, with the data row "a", "b", gives the one record with "b" under
  the key "7" and "a" under the key "id".
\<close>

theorem toObjects_records:
  assumes "distinct (map (\<lambda>h. trim (String_js h)) H)"
      and "''__proto__'' \<notin> set (map (\<lambda>h. trim (String_js h)) H)"
  shows "length (toObjects (Some (H # R))) = length R \<and>
         (\<forall>i < length R.
            length (object_keys (toObjects (Some (H # R)) ! i)) = length H \<and>
            set (object_keys (toObjects (Some (H # R)) ! i)) = set (map (\<lambda>h. trim (String_js h)) H) \<and>
            (\<forall>j < length H.
               obj_get (toObjects (Some (H # R)) ! i) (trim (String_js (H ! j)))
                 = (if j < length (R ! i) \<and> R ! i ! j \<noteq> JUndefined then R ! i ! j else JStr []))) \<and>
         toObjects (Some [[JStr (CHR 0xA0 # ''id ''), JNumber (Num 7)], [JStr ''a'', JStr ''b'']])
           = [[(''7'', JStr ''b''), (''id'', JStr ''a'')]]"
proof -
  have ex: "toObjects (Some [[JStr (CHR 0xA0 # ''id ''), JNumber (Num 7)], [JStr ''a'', JStr ''b'']])
           = [[(''7'', JStr ''b''), (''id'', JStr ''a'')]]"
    by (simp add: toObjects_def assign_js_def obj_set_def cell_or_empty_def array_get_def trim_def
        is_space_def is_array_index_def is_digit_def number_eval)
  let ?hs = "map (\<lambda>h. trim (String_js h)) H"
  have rec: "toObjects (Some (H # R)) ! i = define_all ?hs (R ! i) 0 []" if "i < length R" for i
    using that fill_object_plain[OF assms(2)] by (simp add: toObjects_def)
  have len: "length (toObjects (Some (H # R))) = length R"
    by (simp add: toObjects_def)
  have body: "length (object_keys (define_all ?hs row 0 [])) = length H \<and>
        set (object_keys (define_all ?hs row 0 [])) = set ?hs \<and>
        (\<forall>j < length H. obj_get (define_all ?hs row 0 []) (trim (String_js (H ! j)))
            = (if j < length row \<and> row ! j \<noteq> JUndefined then row ! j else JStr []))" for row
  proof (intro conjI allI impI)
    show "length (object_keys (define_all ?hs row 0 [])) = length H"
      using define_all_length[OF assms(1), of "[]" row 0] by (simp add: object_keys_def)
    show "set (object_keys (define_all ?hs row 0 [])) = set ?hs"
      using define_all_keys[of ?hs row 0 "[]"] by (simp add: object_keys_def)
    fix j assume j: "j < length H"
    have "map_of (define_all ?hs row 0 []) (?hs ! j) = Some (cell_or_empty row (0 + j))"
      using j by (intro define_all_at[OF assms(1)]) simp
    then show "obj_get (define_all ?hs row 0 []) (trim (String_js (H ! j)))
            = (if j < length row \<and> row ! j \<noteq> JUndefined then row ! j else JStr [])"
      using j by (auto simp: obj_get_def cell_or_empty_def array_get_def)
  qed
  show ?thesis using len rec body ex by simp
qed

theorem toObjects_records_witness:
  "distinct (map (\<lambda>h. trim (String_js h)) [JStr '' id '', JStr ''name'']) \<and>
   ''__proto__'' \<notin> set (map (\<lambda>h. trim (String_js h)) [JStr '' id '', JStr ''name'']) \<and>
   length (toObjects (Some ([JStr '' id '', JStr ''name'']
             # [[JNumber (Num 7), JStr ''pc''], [JNumber (Num 8)]]))) = 2 \<and>
   length (object_keys (toObjects (Some ([JStr '' id '', JStr ''name'']
             # [[JNumber (Num 7), JStr ''pc''], [JNumber (Num 8)]])) ! 1)) = 2 \<and>
   obj_get (toObjects (Some ([JStr '' id '', JStr ''name'']
             # [[JNumber (Num 7), JStr ''pc''], [JNumber (Num 8)]])) ! 1) ''name'' = JStr []"
proof -
  have d: "distinct (map (\<lambda>h. trim (String_js h)) [JStr '' id '', JStr ''name''])"
    by (simp add: trim_def is_space_def)
  have n: "''__proto__'' \<notin> set (map (\<lambda>h. trim (String_js h)) [JStr '' id '', JStr ''name''])"
    by (simp add: trim_def is_space_def)
  have t: "trim (String_js ([JStr '' id '', JStr ''name''] ! 1)) = ''name''"
    by (simp add: trim_def is_space_def)
  note r = toObjects_records[OF d n, of "[[JNumber (Num 7), JStr ''pc''], [JNumber (Num 8)]]"]
  from r have a: "length (toObjects (Some ([JStr '' id '', JStr ''name'']
             # [[JNumber (Num 7), JStr ''pc''], [JNumber (Num 8)]]))) = 2"
    by simp
  from r[THEN conjunct2, THEN conjunct1, rule_format, of 1] have b:
   "length (object_keys (toObjects (Some ([JStr '' id '', JStr ''name'']
             # [[JNumber (Num 7), JStr ''pc''], [JNumber (Num 8)]])) ! 1)) = 2"
    by simp
  from r[THEN conjunct2, THEN conjunct1, rule_format, of 1, THEN conjunct2, THEN conjunct2,
      rule_format, of 1] t
  have c: "obj_get (toObjects (Some ([JStr '' id '', JStr ''name'']
             # [[JNumber (Num 7), JStr ''pc''], [JNumber (Num 8)]])) ! 1) ''name'' = JStr []"
    by simp
  from d n a b c show ?thesis by blast
qed

section \<open>Letter case\<close>

lemma lower_code:
  "(of_char (lower_char c) :: nat) = (if is_upper_code (of_char c) then of_char c + 32 else of_char c)"
proof -
  have "(of_char c :: nat) < 256" by simp
  moreover have "is_upper_code (of_char c) \<Longrightarrow> (of_char c :: nat) + 32 < 256"
    by (auto simp: is_upper_code_def)
  ultimately show ?thesis by (simp add: lower_char_def Let_def)
qed


lemma pairs_by_code:
  "zip capital_letters small_letters = map (\<lambda>n. (char_of n, char_of (n + 32))) upper_codes"
  by (simp add: capital_letters_def small_letters_def upper_codes_def upt_rec_numeral char_of_def bit_Suc_0_iff)

lemma upper_codes_set: "n \<in> set upper_codes \<longleftrightarrow> is_upper_code n"
  by (auto simp: upper_codes_def is_upper_code_def simp del: upt_rec_numeral)

lemma pairs_iff:
  "(a, b) \<in> set (zip capital_letters small_letters)
     \<longleftrightarrow> is_upper_code (of_char a) \<and> b = lower_char a"
proof
  assume "(a, b) \<in> set (zip capital_letters small_letters)"
  then obtain n where n: "n \<in> set upper_codes" and a: "a = char_of n" and b: "b = char_of (n + 32)"
    unfolding pairs_by_code by auto
  from n have up: "is_upper_code n" by (simp add: upper_codes_set)
  then have "n < 256" by (auto simp: is_upper_code_def)
  then have "(of_char a :: nat) = n" by (simp add: a)
  with up b show "is_upper_code (of_char a) \<and> b = lower_char a"
    by (simp add: lower_char_def)
next
  assume h: "is_upper_code (of_char a) \<and> b = lower_char a"
  then have "(of_char a :: nat) \<in> set upper_codes" by (simp add: upper_codes_set)
  then have "(\<lambda>n::nat. (char_of n :: char, char_of (n + 32) :: char)) (of_char a)
      \<in> (\<lambda>n. (char_of n, char_of (n + 32))) ` set upper_codes"
    by (rule imageI)
  then have "(char_of (of_char a :: nat), char_of (of_char a + 32 :: nat))
      \<in> set (zip capital_letters small_letters)"
    unfolding pairs_by_code set_map .
  with h show "(a, b) \<in> set (zip capital_letters small_letters)"
    by (simp add: lower_char_def)
qed

lemma lower_not_upper: "is_upper_code (of_char c) \<Longrightarrow> \<not> is_upper_code (of_char (lower_char c))"
  by (auto simp: lower_code is_upper_code_def)

lemma same_letter_lower: "same_letter a b \<longleftrightarrow> lower_char a = lower_char b"
proof -
  have inj: "lower_char a = lower_char b \<longleftrightarrow>
      (of_char (lower_char a) :: nat) = of_char (lower_char b)"
    by simp
  show ?thesis
  proof (cases "is_upper_code (of_char a)"; cases "is_upper_code (of_char b)")
    assume ua: "is_upper_code (of_char a)" and ub: "is_upper_code (of_char b)"
    have "lower_char a = lower_char b \<longleftrightarrow> a = b"
      unfolding inj using ua ub by (simp add: lower_code)
    moreover have "b \<noteq> lower_char a" "a \<noteq> lower_char b"
      using lower_not_upper[OF ua] lower_not_upper[OF ub] ua ub by auto
    ultimately show ?thesis by (auto simp: same_letter_def pairs_iff)
  next
    assume ua: "is_upper_code (of_char a)" and nb: "\<not> is_upper_code (of_char b)"
    then have "a \<noteq> b" by auto
    moreover have "lower_char b = b" using nb by (simp add: lower_char_def)
    ultimately show ?thesis using ua nb by (auto simp: same_letter_def pairs_iff)
  next
    assume na: "\<not> is_upper_code (of_char a)" and ub: "is_upper_code (of_char b)"
    then have "a \<noteq> b" by auto
    moreover have "lower_char a = a" using na by (simp add: lower_char_def)
    ultimately show ?thesis using na ub by (auto simp: same_letter_def pairs_iff)
  next
    assume na: "\<not> is_upper_code (of_char a)" and nb: "\<not> is_upper_code (of_char b)"
    then have "lower_char a = a" "lower_char b = b" by (simp_all add: lower_char_def)
    then show ?thesis using na nb by (auto simp: same_letter_def pairs_iff)
  qed
qed


section \<open>Searching the tables\<close>

lemma includes_js_sublist: "includes_js s q \<longleftrightarrow> sublist q s"
  by (induction s) (auto simp: sublist_Cons_right)

lemma same_ignoring_case_map: "same_ignoring_case a b \<longleftrightarrow> map lower_char a = map lower_char b"
  unfolding same_ignoring_case_def
  by (induction a arbitrary: b) (auto simp: list_all2_Cons1 Cons_eq_map_conv same_letter_lower)

lemma sublist_map_window:
  "sublist (map f q) (map f s) \<longleftrightarrow> (\<exists>i\<le>length s. map f (take (length q) (drop i s)) = map f q)"
proof
  assume "sublist (map f q) (map f s)"
  then obtain ps ss where eq: "map f s = ps @ map f q @ ss" by (auto simp: sublist_def)
  have "length ps \<le> length s"
    using arg_cong[OF eq, of length] by simp
  moreover have "map f (take (length q) (drop (length ps) s)) = map f q"
    using eq by (simp add: take_map[symmetric] drop_map[symmetric])
  ultimately show "\<exists>i\<le>length s. map f (take (length q) (drop i s)) = map f q" by blast
next
  assume "\<exists>i\<le>length s. map f (take (length q) (drop i s)) = map f q"
  then obtain i where i: "i \<le> length s" and w: "map f (take (length q) (drop i s)) = map f q"
    by blast
  have "take (length q) (drop i s) @ drop (length q) (drop i s) = drop i s"
    by (rule append_take_drop_id)
  then have "s = take i s @ take (length q) (drop i s) @ drop (length q) (drop i s)"
    by (metis append_take_drop_id)
  then have "map f s = map f (take i s) @ map f (take (length q) (drop i s)) @ map f (drop (length q) (drop i s))"
    by (metis map_append)
  with w show "sublist (map f q) (map f s)" unfolding sublist_def by metis
qed

lemma includes_lower_ci:
  "includes_js (toLowerCase s) (toLowerCase q) \<longleftrightarrow> ci_substring q s"
proof -
  have "ci_substring q s \<longleftrightarrow> (\<exists>i\<le>length s. map lower_char (take (length q) (drop i s)) = map lower_char q)"
    unfolding ci_substring_def same_ignoring_case_map
    by (auto simp: list_ex_iff less_Suc_eq_le simp del: upt_Suc)
  then show ?thesis
    by (simp add: includes_js_sublist toLowerCase_def sublist_map_window)
qed





section \<open>The pie chart\<close>

lemma falsy_no_work:
  "\<not> truthy v \<Longrightarrow> \<not> includes_js (toLowerCase (String_js v)) ''work''"
proof (cases v)
  case (JNumber n)
  assume "\<not> truthy v"
  with JNumber show ?thesis
    by (cases n) (simp_all add: toLowerCase_def lower_eval)
qed (simp_all add: toLowerCase_def lower_eval)

lemma is_working_ci: "is_working r \<longleftrightarrow> condition_has_work r"
proof -
  have lw: "toLowerCase ''work'' = ''work''"
    by (simp add: toLowerCase_def lower_eval)
  have "is_working r \<longleftrightarrow> includes_js (toLowerCase (String_js (obj_get r ''Condition''))) ''work''"
    using falsy_no_work[of "obj_get r ''Condition''"]
    by (cases "truthy (obj_get r ''Condition'')")
       (simp_all add: is_working_def or_js_def toLowerCase_def)
  also have "\<dots> \<longleftrightarrow> condition_has_work r"
    using includes_lower_ci[of "String_js (obj_get r ''Condition'')" "''work''"]
    by (simp add: lw condition_has_work_def)
  finally show ?thesis .
qed

text \<open>
  C5. The Working count is the number of inventory records whose Condition field, as a
  string, contains "work" case-insensitively; the Under Repair count is the number of
  records less the Working count, floored at zero. For the three records with conditions
  "Working", "under repair" and "WORKING" the counts are 2 and 1.
\<close>

theorem pie_counts:
  "pie_rows inventory =
     [(''Working'', int (length (filter condition_has_work inventory))),
      (''Under Repair'',
         max 0 (int (length inventory) - int (length (filter condition_has_work inventory))))] \<and>
   pie_rows [[(''Condition'', JStr ''Working'')], [(''Condition'', JStr ''under repair'')],
             [(''Condition'', JStr ''WORKING'')]]
     = [(''Working'', 2), (''Under Repair'', 1)]"
proof -
  have eq: "is_working = condition_has_work"
    by (simp add: fun_eq_iff is_working_ci)
  have ex: "pie_rows [[(''Condition'', JStr ''Working'')], [(''Condition'', JStr ''under repair'')],
             [(''Condition'', JStr ''WORKING'')]]
     = [(''Working'', 2), (''Under Repair'', 1)]"
    by (simp add: pie_rows_def is_working_def obj_get_def or_js_def toLowerCase_def lower_eval)
  show ?thesis using ex by (simp add: pie_rows_def eq Let_def)
qed


section \<open>Table cells\<close>

lemma cell_value_cases:
  "cell_value r h =
     (if truthy (obj_get r h) then obj_get r h
      else if truthy (obj_get r (toLowerCase h)) then obj_get r (toLowerCase h)
      else JStr [])"
  by (simp add: cell_value_def or_js_def)

lemma cell_value_truthy: "truthy (cell_value r h) \<longleftrightarrow> cell_value r h \<noteq> JStr []"
  by (auto simp: cell_value_cases)

lemma link_cell_shown: "link_cell = shown_cell True"
  by (simp add: fun_eq_iff link_cell_def shown_cell_def cell_value_truthy Let_def)

lemma plain_cell_shown: "plain_cell = shown_cell False"
  by (simp add: fun_eq_iff plain_cell_def shown_cell_def Let_def)

lemma table_row_fun:
  "table_row cell hs = (\<lambda>r. ''<tr>'' @ concat (map (cell r) hs) @ ''</tr>'')"
  by (simp add: fun_eq_iff table_row_def)

lemma table_html_shown:
  "table_html link_cell hs rows = shown_table True hs rows \<and>
   table_html plain_cell hs rows = shown_table False hs rows"
  by (simp add: table_html_def shown_table_def table_row_fun link_cell_shown plain_cell_shown)

lemma escape_char_clean:
  "CHR ''<'' \<notin> set (escape_char c) \<and> CHR ''>'' \<notin> set (escape_char c) \<and>
   dquote \<notin> set (escape_char c) \<and> squote \<notin> set (escape_char c)"
  by (simp add: escape_char_def dquote_def squote_def)

lemma escapeHtml_clean:
  "CHR ''<'' \<notin> set (escapeHtml v) \<and> CHR ''>'' \<notin> set (escapeHtml v) \<and>
   dquote \<notin> set (escapeHtml v) \<and> squote \<notin> set (escapeHtml v)"
  using escape_char_clean by (simp add: escapeHtml_def)

text \<open>
  C7. In each of the four tables every cell is the escaped text of the record's cell value
  between \<^verbatim>\<open><td>\<close> and \<^verbatim>\<open></td>\<close>, the escaping replacing \<^verbatim>\<open>&\<close>, \<^verbatim>\<open><\<close>, \<^verbatim>\<open>>\<close>, the
  double quote and the single quote by their entities, so that none of the last four
  characters is left in it. The one exception is a non-empty Invoice Link value of the
  inventory and repairs tables, which goes unescaped into the \<^verbatim>\<open>href\<close> of a hyperlink.
\<close>

theorem cells_escaped:
  \<open>inventoryTableWrap (renderInventoryTable q pg)
     = map_option (\<lambda>old. shown_table True inventory_headers (filter (row_matches q) (inventoryData pg)))
         (inventoryTableWrap pg) \<and>
   repairsTableWrap (renderRepairsTable q pg)
     = map_option (\<lambda>old. shown_table True repairs_headers (filter (row_matches q) (repairsData pg)))
         (repairsTableWrap pg) \<and>
   consumableTableWrap (renderConsumablesTable pg)
     = map_option (\<lambda>old. shown_table False consumables_headers (consumablesData pg))
         (consumableTableWrap pg) \<and>
   issuedTableWrap (renderIssuedTable pg)
     = map_option (\<lambda>old. shown_table False issued_headers (issuedData pg)) (issuedTableWrap pg) \<and>
   escapeHtml v = concat (map escape_char (String_js (if truthy v then v else JStr []))) \<and>
   map escape_char [CHR ''&'', CHR ''<'', CHR ''>'', dquote, squote, CHR ''a'']
     = [''&amp;'', ''&lt;'', ''&gt;'', ''&quot;'', ''&#39;'', ''a''] \<and>
   CHR ''<'' \<notin> set (escapeHtml v) \<and> CHR ''>'' \<notin> set (escapeHtml v) \<and>
   dquote \<notin> set (escapeHtml v) \<and> squote \<notin> set (escapeHtml v)\<close>
proof -
  have tabs: "inventoryTableWrap (renderInventoryTable q pg)
     = map_option (\<lambda>old. shown_table True inventory_headers (filter (row_matches q) (inventoryData pg)))
         (inventoryTableWrap pg) \<and>
   repairsTableWrap (renderRepairsTable q pg)
     = map_option (\<lambda>old. shown_table True repairs_headers (filter (row_matches q) (repairsData pg)))
         (repairsTableWrap pg) \<and>
   consumableTableWrap (renderConsumablesTable pg)
     = map_option (\<lambda>old. shown_table False consumables_headers (consumablesData pg))
         (consumableTableWrap pg) \<and>
   issuedTableWrap (renderIssuedTable pg)
     = map_option (\<lambda>old. shown_table False issued_headers (issuedData pg)) (issuedTableWrap pg)"
    by (simp add: renderInventoryTable_def renderRepairsTable_def renderConsumablesTable_def
        renderIssuedTable_def table_html_shown split: option.splits)
  have esc: "escapeHtml v = concat (map escape_char (String_js (if truthy v then v else JStr [])))"
    by (simp add: escapeHtml_def or_js_def)
  have tbl: "map escape_char [CHR ''&'', CHR ''<'', CHR ''>'', dquote, squote, CHR ''a'']
     = [''&amp;'', ''&lt;'', ''&gt;'', ''&quot;'', ''&#39;'', ''a'']"
    by (simp add: escape_char_def dquote_def squote_def)
  from tabs esc tbl escapeHtml_clean[of v] show ?thesis by blast
qed

text \<open>
  C9. For every record \<open>r\<close> and column header \<open>h\<close> of the inventory and repairs tables the value
  shown is \<open>r[h]\<close> when that is truthy, else \<open>r[h.toLowerCase()]\<close> when that is truthy, else
  the empty string. So a value stored under the lowercase spelling of the header is shown as
  if it were stored under the header, and a record whose stored values under both spellings
  are falsy (0, false, the empty string, null) gives the same cell as a record without the
  column.
\<close>

theorem cell_value_choice:
  "cell_value r h =
     (if truthy (obj_get r h) then obj_get r h
      else if truthy (obj_get r (toLowerCase h)) then obj_get r (toLowerCase h)
      else JStr []) \<and>
   table_row link_cell hs r = ''<tr>'' @ concat (map (link_cell r) hs) @ ''</tr>'' \<and>
   (\<not> truthy (obj_get r h) \<and> truthy (obj_get r (toLowerCase h))
      \<longrightarrow> link_cell r h = link_cell [(h, obj_get r (toLowerCase h))] h) \<and>
   (\<not> truthy (obj_get r h) \<and> \<not> truthy (obj_get r (toLowerCase h))
      \<longrightarrow> link_cell r h = link_cell [] h) \<and>
   \<not> truthy (JNumber (Num 0)) \<and> \<not> truthy (JBool False) \<and> \<not> truthy (JStr []) \<and> \<not> truthy JNull"
proof -
  have a: "\<not> truthy (obj_get r h) \<and> truthy (obj_get r (toLowerCase h))
      \<longrightarrow> link_cell r h = link_cell [(h, obj_get r (toLowerCase h))] h"
    by (simp add: link_cell_def cell_value_cases obj_get_def)
  have b: "\<not> truthy (obj_get r h) \<and> \<not> truthy (obj_get r (toLowerCase h))
      \<longrightarrow> link_cell r h = link_cell [] h"
    by (simp add: link_cell_def cell_value_cases obj_get_def)
  show ?thesis using a b by (simp add: cell_value_cases table_row_def)
qed

theorem cell_value_choice_witness:
  "\<not> truthy (obj_get [(''model'', JStr ''T14''), (''RAM'', JNumber (Num 0))] ''Model'') \<and>
   truthy (obj_get [(''model'', JStr ''T14''), (''RAM'', JNumber (Num 0))] (toLowerCase ''Model'')) \<and>
   link_cell [(''model'', JStr ''T14''), (''RAM'', JNumber (Num 0))] ''Model'' = ''<td>T14</td>'' \<and>
   \<not> truthy (obj_get [(''model'', JStr ''T14''), (''RAM'', JNumber (Num 0))] ''RAM'') \<and>
   \<not> truthy (obj_get [(''model'', JStr ''T14''), (''RAM'', JNumber (Num 0))] (toLowerCase ''RAM'')) \<and>
   link_cell [(''model'', JStr ''T14''), (''RAM'', JNumber (Num 0))] ''RAM'' = ''<td></td>''"
proof -
  let ?r = "[(''model'', JStr ''T14''), (''RAM'', JNumber (Num 0))]"
  have m: "\<not> truthy (obj_get ?r ''Model'') \<and> truthy (obj_get ?r (toLowerCase ''Model''))"
    by (simp add: obj_get_def toLowerCase_def lower_eval)
  have n: "\<not> truthy (obj_get ?r ''RAM'') \<and> \<not> truthy (obj_get ?r (toLowerCase ''RAM''))"
    by (simp add: obj_get_def toLowerCase_def lower_eval)
  have lm: "obj_get ?r (toLowerCase ''Model'') = JStr ''T14''"
    by (simp add: obj_get_def toLowerCase_def lower_eval)
  have e1: "link_cell [(''Model'', JStr ''T14'')] ''Model'' = ''<td>T14</td>''"
    by (simp add: link_cell_def cell_value_cases obj_get_def escapeHtml_def or_js_def escape_char_def
        dquote_def squote_def)
  have e2: "link_cell [] ''RAM'' = ''<td></td>''"
    by (simp add: link_cell_def cell_value_cases obj_get_def escapeHtml_def or_js_def)
  note t1 = cell_value_choice[of ?r "''Model''" "[]", THEN conjunct2, THEN conjunct2, THEN conjunct1, rule_format, OF m]
  note t2 = cell_value_choice[of ?r "''RAM''" "[]", THEN conjunct2, THEN conjunct2, THEN conjunct2, THEN conjunct1, rule_format, OF n]
  from t1 lm e1 have r1: "link_cell ?r ''Model'' = ''<td>T14</td>''" by simp
  from t2 e2 have r2: "link_cell ?r ''RAM'' = ''<td></td>''" by simp
  from m n r1 r2 show ?thesis by blast
qed


section \<open>Validation in the submit handlers\<close>

text \<open>
  C4. When the file attached to the add-inventory or the add-repair form has a MIME type other
  than \<^verbatim>\<open>application/pdf\<close>, and when the quantity of the issue-consumable form coerces to
  zero or to a negative number (a finite one of any size, whole or not, or minus infinity),
  the handler does nothing but prevent the default submit and raise an alert: no call
  reaches the network.
\<close>

theorem validation_aborts:
  "(file_type f \<noteq> ''application/pdf'' \<longrightarrow>
      addInventoryForm_submit gw entries (Some f) = [PreventDefault, Alert ''Only PDF invoices allowed''] \<and>
      filter is_network_call (addInventoryForm_submit gw entries (Some f)) = []) \<and>
   (file_type f \<noteq> ''application/pdf'' \<longrightarrow>
      addRepairForm_submit gw entries (Some f) = [PreventDefault, Alert ''Only PDF invoices allowed''] \<and>
      filter is_network_call (addRepairForm_submit gw entries (Some f)) = []) \<and>
   (Number_js str_num (qty_or_zero (fromEntries entries)) = Dec m e \<and> m \<le> 0 \<longrightarrow>
      issueForm_submit str_num gw entries = [PreventDefault, Alert ''Invalid quantity''] \<and>
      filter is_network_call (issueForm_submit str_num gw entries) = []) \<and>
   (Number_js str_num (qty_or_zero (fromEntries entries)) = NegInf \<longrightarrow>
      issueForm_submit str_num gw entries = [PreventDefault, Alert ''Invalid quantity''] \<and>
      filter is_network_call (issueForm_submit str_num gw entries) = [])"
  by (simp add: addInventoryForm_submit_def addRepairForm_submit_def issueForm_submit_def Let_def)

theorem validation_aborts_witness:
  "file_type \<lparr>file_name = ''scan.png'', file_type = ''image/png'',
              file_dataUrl = Some ''data:image/png;base64,AAAA''\<rparr> \<noteq> ''application/pdf'' \<and>
   addInventoryForm_submit \<lparr>respond = (\<lambda>p. Some ''OK''), reload_ok = True\<rparr>
       [(''item'', Prim (JStr ''pen'')), (''qty'', Prim (JStr ''-3''))]
       (Some \<lparr>file_name = ''scan.png'', file_type = ''image/png'',
              file_dataUrl = Some ''data:image/png;base64,AAAA''\<rparr>)
     = [PreventDefault, Alert ''Only PDF invoices allowed''] \<and>
   addRepairForm_submit \<lparr>respond = (\<lambda>p. Some ''OK''), reload_ok = True\<rparr>
       [(''item'', Prim (JStr ''pen'')), (''qty'', Prim (JStr ''-3''))]
       (Some \<lparr>file_name = ''scan.png'', file_type = ''image/png'',
              file_dataUrl = Some ''data:image/png;base64,AAAA''\<rparr>)
     = [PreventDefault, Alert ''Only PDF invoices allowed''] \<and>
   Number_js decimal_number
       (qty_or_zero (fromEntries [(''item'', Prim (JStr ''pen'')), (''qty'', Prim (JStr ''-3''))]))
     = Dec (- 3) 0 \<and>
   issueForm_submit decimal_number \<lparr>respond = (\<lambda>p. Some ''OK''), reload_ok = True\<rparr>
       [(''item'', Prim (JStr ''pen'')), (''qty'', Prim (JStr ''-3''))]
     = [PreventDefault, Alert ''Invalid quantity''] \<and>
   Number_js (\<lambda>s. Dec (- 5) (- 1))
       (qty_or_zero (fromEntries [(''item'', Prim (JStr ''pen'')), (''qty'', Prim (JStr ''-0.5''))]))
     = Dec (- 5) (- 1) \<and>
   issueForm_submit (\<lambda>s. Dec (- 5) (- 1)) \<lparr>respond = (\<lambda>p. Some ''OK''), reload_ok = True\<rparr>
       [(''item'', Prim (JStr ''pen'')), (''qty'', Prim (JStr ''-0.5''))]
     = [PreventDefault, Alert ''Invalid quantity''] \<and>
   Number_js decimal_number
       (qty_or_zero (fromEntries [(''item'', Prim (JStr ''pen'')), (''qty'', Prim (JStr ''-Infinity''))]))
     = NegInf \<and>
   issueForm_submit decimal_number \<lparr>respond = (\<lambda>p. Some ''OK''), reload_ok = True\<rparr>
       [(''item'', Prim (JStr ''pen'')), (''qty'', Prim (JStr ''-Infinity''))]
     = [PreventDefault, Alert ''Invalid quantity'']"
proof -
  let ?f = "\<lparr>file_name = ''scan.png'', file_type = ''image/png'',
              file_dataUrl = Some ''data:image/png;base64,AAAA''\<rparr>"
  let ?gw = "\<lparr>respond = (\<lambda>p. Some ''OK''), reload_ok = True\<rparr>"
  let ?e = "[(''item'', Prim (JStr ''pen'')), (''qty'', Prim (JStr ''-3''))]"
  let ?h = "[(''item'', Prim (JStr ''pen'')), (''qty'', Prim (JStr ''-0.5''))]"
  let ?i = "[(''item'', Prim (JStr ''pen'')), (''qty'', Prim (JStr ''-Infinity''))]"
  have ty: "file_type ?f \<noteq> ''application/pdf''"
    by simp
  have obj: "fromEntries ?e = ?e" "fromEntries ?h = ?h" "fromEntries ?i = ?i"
    by (simp_all add: fromEntries_def obj_set_def is_array_index_def is_digit_def)
  have qty: "Number_js decimal_number (qty_or_zero (fromEntries ?e)) = Dec (- 3) 0 \<and> (- 3 :: int) \<le> 0"
    by (simp add: obj qty_or_zero_def or_js_def decimal_number_def trim_def is_space_def
        is_digit_def)
  have half: "Number_js (\<lambda>s. Dec (- 5) (- 1)) (qty_or_zero (fromEntries ?h)) = Dec (- 5) (- 1)
      \<and> (- 5 :: int) \<le> 0"
    by (simp add: obj qty_or_zero_def or_js_def)
  have inf: "Number_js decimal_number (qty_or_zero (fromEntries ?i)) = NegInf"
    by (simp add: obj qty_or_zero_def or_js_def decimal_number_def trim_def is_space_def
        is_digit_def)
  note t = validation_aborts[of ?f ?gw ?e decimal_number "- 3" 0]
  from t ty have a: "addInventoryForm_submit ?gw ?e (Some ?f)
      = [PreventDefault, Alert ''Only PDF invoices allowed'']"
    by blast
  from t ty have b: "addRepairForm_submit ?gw ?e (Some ?f)
      = [PreventDefault, Alert ''Only PDF invoices allowed'']"
    by blast
  from t qty have c: "issueForm_submit decimal_number ?gw ?e
      = [PreventDefault, Alert ''Invalid quantity'']"
    by blast
  from validation_aborts[of ?f ?gw ?h "\<lambda>s. Dec (- 5) (- 1)" "- 5" "- 1"] half
  have d: "issueForm_submit (\<lambda>s. Dec (- 5) (- 1)) ?gw ?h
      = [PreventDefault, Alert ''Invalid quantity'']"
    by blast
  from validation_aborts[of ?f ?gw ?i decimal_number 0 0] inf
  have e: "issueForm_submit decimal_number ?gw ?i
      = [PreventDefault, Alert ''Invalid quantity'']"
    by blast
  from ty a b qty c half d inf e show ?thesis by blast
qed

text \<open>
  C10. When the coercion of the quantity of the issue-consumable form gives NaN, the test for
  a non-positive quantity does not fire: after preventing the default submit the handler
  posts the command, whose data carry NaN as \<open>qty\<close>, and goes on as after any post.
\<close>

theorem nan_quantity_submitted:
  assumes "Number_js str_num (qty_or_zero (fromEntries entries)) = NaN"
  shows "issueForm_submit str_num gw entries =
           PreventDefault #
           post_and_refresh gw
             (DataCommand ''issueConsumable''
                (obj_set (fromEntries entries) ''qty'' (Prim (JNumber NaN))))
             [RenderConsumablesTable, RenderIssuedTable, PopulateIssueSelect, ResetForm] \<and>
         issueForm_submit str_num gw entries ! 1 =
           Post (DataCommand ''issueConsumable''
                   (obj_set (fromEntries entries) ''qty'' (Prim (JNumber NaN)))) \<and>
         map_of (obj_set (fromEntries entries) ''qty'' (Prim (JNumber NaN))) ''qty''
           = Some (Prim (JNumber NaN))"
  using assms
  by (simp add: issueForm_submit_def Let_def post_and_refresh_def map_of_obj_set)


theorem nan_quantity_submitted_witness:
  "Number_js decimal_number
       (qty_or_zero (fromEntries [(''item'', Prim (JStr ''pen'')), (''qty'', Prim (JStr ''abc''))]))
     = NaN \<and>
   issueForm_submit decimal_number \<lparr>respond = (\<lambda>p. Some ''OK''), reload_ok = True\<rparr>
       [(''item'', Prim (JStr ''pen'')), (''qty'', Prim (JStr ''abc''))]
     = [PreventDefault,
        Post (DataCommand ''issueConsumable''
                [(''item'', Prim (JStr ''pen'')), (''qty'', Prim (JNumber NaN))]),
        Alert ''OK'', LoadAllData, RenderConsumablesTable, RenderIssuedTable,
        PopulateIssueSelect, ResetForm]"
proof -
  let ?gw = "\<lparr>respond = (\<lambda>p. Some ''OK''), reload_ok = True\<rparr>"
  let ?e = "[(''item'', Prim (JStr ''pen'')), (''qty'', Prim (JStr ''abc''))]"
  have obj: "fromEntries ?e = ?e"
    by (simp add: fromEntries_def obj_set_def is_array_index_def is_digit_def)
  have qty: "Number_js decimal_number (qty_or_zero (fromEntries ?e)) = NaN"
    by (simp add: obj qty_or_zero_def or_js_def decimal_number_def trim_def is_space_def
        is_digit_def)
  have upd: "obj_set ?e ''qty'' (Prim (JNumber NaN))
      = [(''item'', Prim (JStr ''pen'')), (''qty'', Prim (JNumber NaN))]"
    by (simp add: obj_set_def)
  from nan_quantity_submitted[OF qty, of ?gw] have
    "issueForm_submit decimal_number ?gw ?e =
       PreventDefault #
       post_and_refresh ?gw
         (DataCommand ''issueConsumable'' (obj_set (fromEntries ?e) ''qty'' (Prim (JNumber NaN))))
         [RenderConsumablesTable, RenderIssuedTable, PopulateIssueSelect, ResetForm]"
    by blast
  then have "issueForm_submit decimal_number ?gw ?e
     = [PreventDefault,
        Post (DataCommand ''issueConsumable''
                [(''item'', Prim (JStr ''pen'')), (''qty'', Prim (JNumber NaN))]),
        Alert ''OK'', LoadAllData, RenderConsumablesTable, RenderIssuedTable,
        PopulateIssueSelect, ResetForm]"
    by (simp add: obj upd post_and_refresh_def)
  with qty show ?thesis by blast
qed

section \<open>The bar chart\<close>

lemma plain_systems_proto:
  "plain_systems repairs \<Longrightarrow> r \<in> set repairs \<Longrightarrow> system_key r \<noteq> ''__proto__''"
  by (auto simp: plain_systems_def prototype_names_def list_all_iff)

lemma plain_systems_functions:
  "plain_systems repairs \<Longrightarrow> \<not> list_ex (\<lambda>r. system_key r \<in> set prototype_functions) repairs"
  by (auto simp: plain_systems_def prototype_names_def list_all_iff list_ex_iff)

lemma plain_systems_Cons:
  "plain_systems (r # rs) \<Longrightarrow> system_key r \<noteq> ''__proto__'' \<and> plain_systems rs"
  by (auto simp: plain_systems_def prototype_names_def)

lemma map_of_bump:
  "s \<noteq> ''__proto__'' \<Longrightarrow> map_of (bump counts s) = (map_of counts)(s \<mapsto> count_of counts s + 1)"
  by (simp add: bump_def map_of_obj_set)

lemma count_of_bump:
  "s \<noteq> ''__proto__'' \<Longrightarrow>
   count_of (bump counts s) k = count_of counts k + (if k = s then 1 else 0)"
  by (simp add: count_of_def map_of_bump)

lemma keys_bump:
  "s \<noteq> ''__proto__'' \<Longrightarrow>
   set (object_keys (bump counts s)) = insert s (set (object_keys counts))"
  by (simp add: bump_def keys_obj_set)

lemma distinct_bump: "distinct (object_keys counts) \<Longrightarrow> distinct (object_keys (bump counts s))"
  by (simp add: bump_def distinct_obj_set)

lemma count_of_foldl:
  "plain_systems rs \<Longrightarrow>
   count_of (foldl (\<lambda>counts r. bump counts (system_key r)) acc rs) k
     = count_of acc k + group_count rs k"
proof (induction rs arbitrary: acc)
  case Nil
  then show ?case by (simp add: group_count_def)
next
  case (Cons r rs)
  from plain_systems_Cons[OF Cons.prems]
  have r: "system_key r \<noteq> ''__proto__''" and rs: "plain_systems rs" by simp_all
  show ?case using Cons.IH[OF rs, of "bump acc (system_key r)"]
    by (auto simp: group_count_def count_of_bump[OF r])
qed

lemma keys_foldl:
  "plain_systems rs \<Longrightarrow>
   set (object_keys (foldl (\<lambda>counts r. bump counts (system_key r)) acc rs))
     = set (object_keys acc) \<union> system_key ` set rs"
proof (induction rs arbitrary: acc)
  case Nil
  then show ?case by simp
next
  case (Cons r rs)
  from plain_systems_Cons[OF Cons.prems]
  have r: "system_key r \<noteq> ''__proto__''" and rs: "plain_systems rs" by simp_all
  show ?case using Cons.IH[OF rs, of "bump acc (system_key r)"]
    by (auto simp: keys_bump[OF r])
qed

lemma distinct_foldl:
  "distinct (object_keys acc) \<Longrightarrow>
   distinct (object_keys (foldl (\<lambda>counts r. bump counts (system_key r)) acc rs))"
  by (induction rs arbitrary: acc) (auto simp: distinct_bump)

lemma count_systems_count:
  "plain_systems repairs \<Longrightarrow> count_of (count_systems repairs) k = group_count repairs k"
proof -
  assume p: "plain_systems repairs"
  have "count_of [] k = 0" by (simp add: count_of_def)
  then show ?thesis unfolding count_systems_def by (simp add: count_of_foldl[OF p])
qed

lemma count_systems_keys:
  "plain_systems repairs \<Longrightarrow>
   set (object_keys (count_systems repairs)) = system_key ` set repairs"
proof -
  assume p: "plain_systems repairs"
  have "set (object_keys ([] :: int obj)) = {}" by (simp add: object_keys_def)
  then show ?thesis unfolding count_systems_def by (simp add: keys_foldl[OF p])
qed

lemma count_systems_distinct: "distinct (object_keys (count_systems repairs))"
proof -
  have "distinct (object_keys ([] :: int obj))" by (simp add: object_keys_def)
  then show ?thesis unfolding count_systems_def by (rule distinct_foldl)
qed

lemma sort_key_Nil_iff: "sort_key f xs = [] \<longleftrightarrow> xs = []"
  by (metis length_0_conv length_sort)

lemma bar_rows_top:
  assumes p: "plain_systems repairs"
  shows "bar_rows repairs =
     Some (if repairs = [] then [(''None'', 0)]
           else map (\<lambda>k. (k, group_count repairs k)) (top_systems repairs))"
proof -
  have fn: "(\<lambda>k. count_of (count_systems repairs) k) = group_count repairs"
    by (simp add: fun_eq_iff count_systems_count[OF p])
  have "top_systems repairs = [] \<longleftrightarrow> repairs = []"
  proof -
    have "top_systems repairs = [] \<longleftrightarrow> object_keys (count_systems repairs) = []"
      by (simp add: top_systems_def take_eq_Nil sort_key_Nil_iff)
    also have "\<dots> \<longleftrightarrow> set (object_keys (count_systems repairs)) = {}" by simp
    also have "\<dots> \<longleftrightarrow> repairs = []" by (simp add: count_systems_keys[OF p])
    finally show ?thesis .
  qed
  then show ?thesis
    using plain_systems_functions[OF p]
    by (simp add: bar_rows_def Let_def fn top_systems_def)
qed

lemma top_distinct: "distinct (top_systems repairs)"
  by (simp add: top_systems_def count_systems_distinct)

lemma top_subset:
  "plain_systems repairs \<Longrightarrow> set (top_systems repairs) \<subseteq> system_key ` set repairs"
  using set_take_subset[of 10 "sort_key (\<lambda>k. - group_count repairs k) (object_keys (count_systems repairs))"]
  by (simp add: top_systems_def count_systems_keys)

lemma top_length:
  assumes p: "plain_systems repairs"
  shows "length (top_systems repairs) = min 10 (card (system_key ` set repairs))"
proof -
  have "card (system_key ` set repairs) = length (object_keys (count_systems repairs))"
    using distinct_card[OF count_systems_distinct[of repairs]]
    by (simp add: count_systems_keys[OF p])
  then show ?thesis by (simp add: top_systems_def min.commute)
qed

lemma sorted_desc:
  "sorted_wrt (\<lambda>a b. g b \<le> (g a :: int)) (sort_key (\<lambda>k. - g k) ks)"
proof -
  have "sorted (map (\<lambda>k. - g k) (sort_key (\<lambda>k. - g k) ks))" by (rule sorted_sort_key)
  then show ?thesis by (simp add: sorted_wrt_map)
qed

lemma top_sorted: "sorted_wrt (\<ge>) (map (group_count repairs) (top_systems repairs))"
proof -
  let ?xs = "sort_key (\<lambda>k. - group_count repairs k) (object_keys (count_systems repairs))"
  have "sorted_wrt (\<lambda>a b. group_count repairs b \<le> group_count repairs a) ?xs"
    by (rule sorted_desc)
  then have "sorted_wrt (\<lambda>a b. group_count repairs b \<le> group_count repairs a) (take 10 ?xs)"
    by (rule sorted_wrt_take)
  then show ?thesis by (simp add: top_systems_def sorted_wrt_map)
qed

lemma top_dominates:
  assumes p: "plain_systems repairs"
      and "k \<in> system_key ` set repairs" "k \<notin> set (top_systems repairs)"
      and "k' \<in> set (top_systems repairs)"
  shows "group_count repairs k \<le> group_count repairs k'"
proof -
  let ?xs = "sort_key (\<lambda>k. - group_count repairs k) (object_keys (count_systems repairs))"
  have s: "sorted_wrt (\<lambda>a b. group_count repairs b \<le> group_count repairs a) (take 10 ?xs @ drop 10 ?xs)"
    using sorted_desc[of "group_count repairs" "object_keys (count_systems repairs)"] by simp
  have "k \<in> set ?xs" using assms(2) by (simp add: count_systems_keys[OF p])
  then have "k \<in> set (take 10 ?xs) \<union> set (drop 10 ?xs)"
    by (metis append_take_drop_id set_append)
  with assms(3) have "k \<in> set (drop 10 ?xs)" by (simp add: top_systems_def)
  moreover have "k' \<in> set (take 10 ?xs)" using assms(4) by (simp add: top_systems_def)
  ultimately show ?thesis using s unfolding sorted_wrt_append by blast
qed

lemma system_key_cases:
  "system_key r =
     (if truthy (obj_get r ''System Number'') then String_js (obj_get r ''System Number'')
      else if truthy (obj_get r ''systemNumber'') then String_js (obj_get r ''systemNumber'')
      else ''Unknown'')"
  by (simp add: system_key_def or_js_def)

lemmas bar_eval =
  bar_rows_def count_systems_def bump_def count_of_def system_key_cases obj_get_def obj_set_def
  is_array_index_def is_digit_def object_keys_def prototype_functions_def Let_def

text \<open>
  C6, as stated, at a repair whose System Number is the number 0, at one whose System Number
  is the empty string, and at one whose System Number is \<^verbatim>\<open>__proto__\<close>. In the first two
  the record has the key, but its value is falsy, so the record is counted under "Unknown"
  and not under its own System Number. In the third the count is never stored, so the
  dataset of one record gets the placeholder row of a chart without groups.
\<close>

theorem bar_chart_zero_system:
  "present_system [(''System Number'', JNumber (Num 0))] = ''0'' \<and>
   bar_rows [[(''System Number'', JNumber (Num 0))]] = Some [(''Unknown'', 1)] \<and>
   present_system [(''System Number'', JStr [])] = [] \<and>
   bar_rows [[(''System Number'', JStr [])]] = Some [(''Unknown'', 1)] \<and>
   present_system [(''System Number'', JStr ''__proto__'')] = ''__proto__'' \<and>
   bar_rows [[(''System Number'', JStr ''__proto__'')]] = Some [(''None'', 0)]"
  by (simp add: present_system_def bar_eval)

text \<open>
  C6, amended. The system of a repair record is the string form of its \<^verbatim>\<open>System Number\<close>
  value when that value is truthy, else of its \<^verbatim>\<open>systemNumber\<close> value when that one is
  truthy, else "Unknown" (a value that is absent, empty, 0, false or null does not count).
  For every dataset in which no record's system is a name that \<^verbatim>\<open>Object.prototype\<close>
  defines (\<^verbatim>\<open>__proto__\<close>, \<^verbatim>\<open>constructor\<close>, \<^verbatim>\<open>toString\<close> and the like), the chart gets
  rows: with no records the single row ("None", 0); otherwise pairwise distinct systems of
  the dataset, each with the number of its records, in descending order of that number, ten
  of them, or as many as there are systems when these are fewer, and no system left out has
  more records than one that is shown. Records of systems A, A and B give the rows
  ("A", 2), ("B", 1).
\<close>

theorem bar_chart_groups:
  "system_key r =
     (if truthy (obj_get r ''System Number'') then String_js (obj_get r ''System Number'')
      else if truthy (obj_get r ''systemNumber'') then String_js (obj_get r ''systemNumber'')
      else ''Unknown'') \<and>
   (plain_systems repairs \<longrightarrow> (\<exists>rows. bar_rows repairs = Some rows)) \<and>
   (plain_systems repairs \<and> repairs = [] \<longrightarrow> bar_rows repairs = Some [(''None'', 0)]) \<and>
   (plain_systems repairs \<and> repairs \<noteq> [] \<and> bar_rows repairs = Some rows \<longrightarrow>
      rows = map (\<lambda>k. (k, group_count repairs k)) (map fst rows) \<and>
      distinct (map fst rows) \<and>
      set (map fst rows) \<subseteq> system_key ` set repairs \<and>
      length rows = min 10 (card (system_key ` set repairs)) \<and>
      sorted_wrt (\<ge>) (map snd rows) \<and>
      (\<forall>k \<in> system_key ` set repairs. \<forall>row \<in> set rows.
          k \<notin> set (map fst rows) \<longrightarrow> group_count repairs k \<le> snd row)) \<and>
   bar_rows [[(''System Number'', JStr ''A'')], [(''systemNumber'', JStr ''A'')],
             [(''System Number'', JStr ''B'')]] = Some [(''A'', 2), (''B'', 1)]"
proof -
  have ex: "bar_rows [[(''System Number'', JStr ''A'')], [(''systemNumber'', JStr ''A'')],
             [(''System Number'', JStr ''B'')]] = Some [(''A'', 2), (''B'', 1)]"
    by (simp add: bar_eval)
  have total: "plain_systems repairs \<longrightarrow> (\<exists>rows. bar_rows repairs = Some rows)"
    by (simp add: bar_rows_top)
  have empty: "plain_systems repairs \<and> repairs = [] \<longrightarrow> bar_rows repairs = Some [(''None'', 0)]"
    using bar_rows_top[of repairs] by auto
  have full: "rows = map (\<lambda>k. (k, group_count repairs k)) (map fst rows) \<and>
      distinct (map fst rows) \<and>
      set (map fst rows) \<subseteq> system_key ` set repairs \<and>
      length rows = min 10 (card (system_key ` set repairs)) \<and>
      sorted_wrt (\<ge>) (map snd rows) \<and>
      (\<forall>k \<in> system_key ` set repairs. \<forall>row \<in> set rows.
          k \<notin> set (map fst rows) \<longrightarrow> group_count repairs k \<le> snd row)"
    if p: "plain_systems repairs" and ne: "repairs \<noteq> []" and some: "bar_rows repairs = Some rows"
  proof -
    have rows: "rows = map (\<lambda>k. (k, group_count repairs k)) (top_systems repairs)"
      using ne some by (simp add: bar_rows_top[OF p])
    have fsts: "map fst rows = top_systems repairs"
      by (simp add: rows comp_def)
    have snds: "map snd rows = map (group_count repairs) (top_systems repairs)"
      by (simp add: rows comp_def)
    have dom: "group_count repairs k \<le> snd row"
      if "k \<in> system_key ` set repairs" "row \<in> set rows" "k \<notin> set (map fst rows)" for k row
    proof -
      from that(2) rows obtain k' where "k' \<in> set (top_systems repairs)"
        and "row = (k', group_count repairs k')" by auto
      with top_dominates[OF p that(1), of k'] that(3) fsts show ?thesis by simp
    qed
    have len: "length rows = min 10 (card (system_key ` set repairs))"
      using top_length[OF p] by (simp add: rows)
    have c1: "rows = map (\<lambda>k. (k, group_count repairs k)) (map fst rows)"
      unfolding fsts by (rule rows)
    have c2: "distinct (map fst rows)"
      unfolding fsts by (rule top_distinct)
    have c3: "set (map fst rows) \<subseteq> system_key ` set repairs"
      unfolding fsts by (rule top_subset[OF p])
    have c5: "sorted_wrt (\<ge>) (map snd rows)"
      unfolding snds by (rule top_sorted)
    from c1 c2 c3 len c5 dom show ?thesis by blast
  qed
  show ?thesis using ex total empty full system_key_cases[of r] by blast
qed

theorem bar_chart_groups_witness:
  "plain_systems [] \<and>
   bar_rows [] = Some [(''None'', 0)] \<and>
   plain_systems sample_repairs \<and>
   sample_repairs \<noteq> [] \<and>
   bar_rows sample_repairs
     = Some [(''S11'', 2), (''S1'', 1), (''S2'', 1), (''S3'', 1), (''S4'', 1), (''S5'', 1),
             (''S6'', 1), (''S7'', 1), (''S8'', 1), (''S9'', 1)] \<and>
   ''S10'' \<in> system_key ` set sample_repairs \<and>
   ''S10'' \<notin> set (map fst [(''S11'', 2 :: int), (''S1'', 1), (''S2'', 1), (''S3'', 1), (''S4'', 1),
                           (''S5'', 1), (''S6'', 1), (''S7'', 1), (''S8'', 1), (''S9'', 1)]) \<and>
   group_count sample_repairs ''S10'' \<le> snd (''S9'', 1 :: int) \<and>
   length [(''S11'', 2 :: int), (''S1'', 1), (''S2'', 1), (''S3'', 1), (''S4'', 1), (''S5'', 1),
           (''S6'', 1), (''S7'', 1), (''S8'', 1), (''S9'', 1)]
     = min 10 (card (system_key ` set sample_repairs))"
proof -
  let ?rows = "[(''S11'', 2 :: int), (''S1'', 1), (''S2'', 1), (''S3'', 1), (''S4'', 1), (''S5'', 1),
           (''S6'', 1), (''S7'', 1), (''S8'', 1), (''S9'', 1)]"
  have pe: "plain_systems []"
    by (simp add: plain_systems_def)
  have e: "bar_rows [] = Some [(''None'', 0)]"
    using bar_chart_groups[of "[]" "[]" "[]"] pe by blast
  have ne: "sample_repairs \<noteq> []"
    by (simp add: sample_repairs_def)
  have p: "plain_systems sample_repairs"
    by (simp add: sample_repairs_def plain_systems_def prototype_names_def
        prototype_functions_def system_key_cases obj_get_def)
  have rows: "bar_rows sample_repairs = Some ?rows"
    by (simp add: sample_repairs_def bar_eval)
  have j: "''S10'' \<in> system_key ` set sample_repairs"
    by (simp add: sample_repairs_def system_key_cases obj_get_def)
  have i: "(''S9'', 1) \<in> set ?rows"
    by simp
  have nj: "''S10'' \<notin> set (map fst ?rows)"
    by simp
  from bar_chart_groups[of "[]" sample_repairs ?rows] p ne rows
  have t: "length ?rows = min 10 (card (system_key ` set sample_repairs)) \<and>
      (\<forall>k \<in> system_key ` set sample_repairs. \<forall>row \<in> set ?rows.
          k \<notin> set (map fst ?rows) \<longrightarrow> group_count sample_repairs k \<le> snd row)"
    by blast
  from t have len: "length ?rows = min 10 (card (system_key ` set sample_repairs))"
    by blast
  from t j i nj have d: "group_count sample_repairs ''S10'' \<le> snd (''S9'', 1 :: int)"
    by blast
  from pe e p ne rows j nj d len show ?thesis by blast
qed

section \<open>Export and re-reading\<close>

lemma scan_quoted_body:
  "csv_scan InQuoted fld row rows (double_quotes s @ dquote # rest)
     = csv_scan AfterQuote (fld @ s) row rows rest"
  by (induction s arbitrary: fld) (simp_all add: double_quotes_def)

lemma scan_quoted:
  "csv_scan FieldStart fld row rows (quoted s @ rest) = csv_scan AfterQuote s row rows rest"
  using scan_quoted_body[of "[]" row rows s rest] by (simp add: quoted_def)

lemma scan_quoted_line:
  "fs \<noteq> [] \<Longrightarrow>
   csv_scan FieldStart fld row rows (join_js '','' (map quoted fs) @ rest)
     = csv_scan AfterQuote (last fs) (row @ butlast fs) rows rest"
proof (induction fs arbitrary: fld row)
  case Nil
  then show ?case by simp
next
  case (Cons f gs)
  show ?case
  proof (cases gs)
    case Nil
    then show ?thesis by (simp add: scan_quoted)
  next
    case (Cons g hs)
    have "csv_scan FieldStart fld row rows (join_js '','' (map quoted (f # gs)) @ rest)
        = csv_scan AfterQuote f row rows (CHR '','' # join_js '','' (map quoted gs) @ rest)"
      using scan_quoted[of fld row rows f "CHR '','' # join_js '','' (map quoted gs) @ rest"]
      by (simp add: Cons)
    also have "\<dots> = csv_scan FieldStart [] (row @ [f]) rows (join_js '','' (map quoted gs) @ rest)"
      by (simp add: dquote_def newline_def)
    also have "\<dots> = csv_scan AfterQuote (last gs) ((row @ [f]) @ butlast gs) rows rest"
      using Cons.IH[of "[]" "row @ [f]"] Cons by simp
    finally show ?thesis using Cons by simp
  qed
qed

lemma scan_quoted_lines:
  "list_all (\<lambda>l. l \<noteq> []) ls \<Longrightarrow>
   csv_scan FieldStart fld [] rows (join_js [newline] (map (\<lambda>l. join_js '','' (map quoted l)) ls))
     = Some (rows @ ls)"
proof (induction ls arbitrary: fld rows)
  case Nil
  then show ?case by simp
next
  case (Cons l ms)
  then have l: "l \<noteq> []" by simp
  show ?case
  proof (cases ms)
    case Nil
    have "csv_scan FieldStart fld [] rows (join_js '','' (map quoted l) @ [])
        = csv_scan AfterQuote (last l) ([] @ butlast l) rows []"
      by (rule scan_quoted_line[OF l])
    then show ?thesis using l Nil by simp
  next
    case (Cons m ns)
    have "csv_scan FieldStart fld [] rows
            (join_js '','' (map quoted l) @ newline # join_js [newline] (map (\<lambda>l. join_js '','' (map quoted l)) ms))
        = csv_scan AfterQuote (last l) ([] @ butlast l) rows
            (newline # join_js [newline] (map (\<lambda>l. join_js '','' (map quoted l)) ms))"
      by (rule scan_quoted_line[OF l])
    also have "\<dots> = csv_scan FieldStart [] [] (rows @ [l])
            (join_js [newline] (map (\<lambda>l. join_js '','' (map quoted l)) ms))"
      using l by (simp add: dquote_def newline_def)
    also have "\<dots> = Some ((rows @ [l]) @ ms)"
      using Cons.IH[of "[]" "rows @ [l]"] Cons.prems by simp
    finally show ?thesis using Cons by simp
  qed
qed

lemma scan_plain_body:
  "plain_key k \<Longrightarrow>
   csv_scan InPlain fld row rows (k @ rest) = csv_scan InPlain (fld @ k) row rows rest"
  by (induction k arbitrary: fld) (auto simp: plain_key_def)

lemma scan_plain_field:
  "plain_key k \<Longrightarrow> k \<noteq> [] \<Longrightarrow>
   csv_scan FieldStart fld row rows (k @ rest) = csv_scan InPlain k row rows rest"
proof -
  assume k: "plain_key k" "k \<noteq> []"
  then obtain c k' where ck: "k = c # k'" by (cases k) auto
  with k have c: "c \<noteq> dquote" "c \<noteq> CHR '',''" "c \<noteq> newline" and k': "plain_key k'"
    by (auto simp: plain_key_def)
  show ?thesis using c scan_plain_body[OF k', of "[c]" row rows rest] by (simp add: ck)
qed

lemma scan_header_line:
  "hs \<noteq> [] \<Longrightarrow> list_all plain_key hs \<Longrightarrow>
   csv_scan FieldStart fld row rows (join_js '','' hs @ newline # rest)
     = csv_scan FieldStart [] []
         (if row = [] \<and> hs = [[]] then rows else rows @ [row @ hs]) rest"
proof (induction hs arbitrary: fld row)
  case Nil
  then show ?case by simp
next
  case (Cons k ks)
  then have pk: "plain_key k" by simp
  show ?case
  proof (cases ks)
    case Nil
    show ?thesis
    proof (cases "k = []")
      case True
      then show ?thesis using Nil by (simp add: dquote_def newline_def)
    next
      case False
      then show ?thesis
        using Nil scan_plain_field[OF pk False, of fld row rows "newline # rest"]
        by (simp add: newline_def)
    qed
  next
    case (Cons k2 ks2)
    have step: "csv_scan FieldStart fld row rows (join_js '','' (k # ks) @ newline # rest)
        = csv_scan FieldStart [] (row @ [k]) rows (join_js '','' ks @ newline # rest)"
    proof (cases "k = []")
      case True
      then show ?thesis using Cons by (simp add: dquote_def newline_def)
    next
      case False
      then show ?thesis
        using Cons scan_plain_field[OF pk False, of fld row rows
            "CHR '','' # join_js '','' ks @ newline # rest"]
        by (simp add: newline_def)
    qed
    have "csv_scan FieldStart [] (row @ [k]) rows (join_js '','' ks @ newline # rest)
        = csv_scan FieldStart [] [] (rows @ [(row @ [k]) @ ks]) rest"
      using Cons.IH[of "[]" "row @ [k]"] Cons.prems Cons by simp
    with step show ?thesis using Cons by simp
  qed
qed

lemma csv_text_unfold:
  "arr \<noteq> [] \<Longrightarrow>
   csv_text arr =
     join_js '','' (object_keys (hd arr)) @ newline #
     join_js [newline]
       (map (\<lambda>l. join_js '','' (map quoted l))
          (map (\<lambda>r. map (\<lambda>h. String_js (or_js (obj_get r h) (JStr []))) (object_keys (hd arr))) arr))"
proof -
  assume "arr \<noteq> []"
  then obtain r rs where arr: "arr = r # rs" by (cases arr) auto
  have q: "(\<lambda>h. csv_field (obj_get x h)) = (\<lambda>h. quoted (String_js (or_js (obj_get x h) (JStr []))))" for x
    by (simp add: fun_eq_iff csv_field_def quoted_def)
  show ?thesis
    by (simp add: csv_text_def Let_def arr q comp_def)
qed

lemma map_of_map_self: "k \<in> set hs \<Longrightarrow> map_of (map (\<lambda>h. (h, f h)) hs) k = Some (f k)"
  by (induction hs) auto

lemma zip_map_self: "zip hs (map f hs) = map (\<lambda>h. (h, f h)) hs"
  by (induction hs) auto

text \<open>
  C2, as stated, at a record whose Quantity is the number 0, and at a record with the key
  \<open>a,b\<close>: the exported field of the quantity is empty, so the text reads back as the empty
  string and not as "0"; the header line is written without quotes, so the key with a comma
  reads back as the key \<open>a\<close>.
\<close>

theorem csv_round_trip_fails:
  "parse_csv (csv_text [[(''Quantity'', JNumber (Num 0))]]) = Some [[(''Quantity'', [])]] \<and>
   String_js (JNumber (Num 0)) = ''0'' \<and>
   parse_csv (csv_text [[(''a,b'', JStr ''x'')]]) = Some [[(''a'', ''x'')]] \<and>
   object_keys [(''a,b'', JStr ''x'')] = [''a,b'']"
  by (simp add: parse_csv_def csv_text_def csv_field_def double_quotes_def object_keys_def
      obj_get_def or_js_def dquote_def newline_def number_eval)

text \<open>
  C2, amended. For every non-empty collection of records that all have the keys of the first,
  where that first record has at least one key, not the empty key alone, and none of its keys
  holds a comma, a double quote or a line break: the file offered for download is the header
  line of the first record's keys followed by one line per record, and reading that text back
  gives, record by record, the keys of the first record in their order, each with the string
  form of the record's value when that value is truthy and with the empty string when it is
  falsy (0, false, null, NaN, the empty string).
\<close>

theorem csv_round_trip:
  assumes "arr \<noteq> []" and "csv_plain_keys (object_keys (hd arr))"
      and "\<forall>r \<in> set arr. set (object_keys r) = set (object_keys (hd arr))"
  shows "downloadCsvFromArray (Some arr) filename = Download filename (csv_text arr) \<and>
         parse_csv (csv_text arr) = Some (map (exported_record (object_keys (hd arr))) arr) \<and>
         (\<forall>r \<in> set arr.
            map fst (exported_record (object_keys (hd arr)) r) = object_keys (hd arr) \<and>
            (\<forall>k \<in> set (object_keys r).
               map_of (exported_record (object_keys (hd arr)) r) k
                 = Some (if truthy (obj_get r k) then String_js (obj_get r k) else [])))"
proof -
  let ?hs = "object_keys (hd arr)"
  let ?f = "\<lambda>r h. String_js (or_js (obj_get r h) (JStr []))"
  let ?ls = "map (\<lambda>r. map (?f r) ?hs) arr"
  from assms(2) have hs: "?hs \<noteq> []" "?hs \<noteq> [[]]" "list_all plain_key ?hs"
    by (simp_all add: csv_plain_keys_def)
  have ne: "list_all (\<lambda>l. l \<noteq> []) ?ls"
    using hs(1) by (simp add: list_all_iff)
  have "csv_scan FieldStart [] [] [] (csv_text arr)
      = csv_scan FieldStart [] [] [?hs]
          (join_js [newline] (map (\<lambda>l. join_js '','' (map quoted l)) ?ls))"
    using scan_header_line[OF hs(1) hs(3), of "[]" "[]" "[]"] hs(2)
    by (simp add: csv_text_unfold[OF assms(1)])
  also have "\<dots> = Some ([?hs] @ ?ls)"
    by (rule scan_quoted_lines[OF ne])
  finally have scan: "csv_scan FieldStart [] [] [] (csv_text arr) = Some (?hs # ?ls)"
    by simp
  have parse: "parse_csv (csv_text arr) = Some (map (exported_record ?hs) arr)"
    by (simp add: parse_csv_def scan exported_record_def zip_map_self comp_def)
  have dl: "downloadCsvFromArray (Some arr) filename = Download filename (csv_text arr)"
    using assms(1) by (cases arr) (simp_all add: downloadCsvFromArray_def)
  have fields: "map fst (exported_record ?hs r) = ?hs \<and>
            (\<forall>k \<in> set (object_keys r).
               map_of (exported_record ?hs r) k
                 = Some (if truthy (obj_get r k) then String_js (obj_get r k) else []))"
    if r: "r \<in> set arr" for r
  proof (intro conjI ballI)
    show "map fst (exported_record ?hs r) = ?hs"
      by (simp add: exported_record_def comp_def)
    fix k assume "k \<in> set (object_keys r)"
    with assms(3) r have "k \<in> set ?hs" by blast
    then have "map_of (map (\<lambda>h. (h, ?f r h)) ?hs) k = Some (?f r k)"
      by (rule map_of_map_self)
    then show "map_of (exported_record ?hs r) k
        = Some (if truthy (obj_get r k) then String_js (obj_get r k) else [])"
      by (simp add: exported_record_def or_js_def)
  qed
  from dl parse fields show ?thesis by blast
qed

theorem csv_round_trip_witness:
  "sample_stock \<noteq> [] \<and>
   csv_plain_keys (object_keys (hd sample_stock)) \<and>
   set (object_keys (sample_stock ! 0)) = set (object_keys (hd sample_stock)) \<and>
   set (object_keys (sample_stock ! 1)) = set (object_keys (hd sample_stock)) \<and>
   parse_csv (csv_text sample_stock)
     = Some [[(''Item'', ''12'' @ [dquote] @ '' rule, steel''), (''Quantity'', [])],
             [(''Item'', ''pen''), (''Quantity'', ''12'')]]"
proof -
  have ne: "sample_stock \<noteq> []"
    by (simp add: sample_stock_def)
  have pk: "csv_plain_keys (object_keys (hd sample_stock))"
    by (simp add: sample_stock_def csv_plain_keys_def plain_key_def object_keys_def dquote_def
        newline_def)
  have h0: "set (object_keys (sample_stock ! 0)) = set (object_keys (hd sample_stock))"
    by (simp add: sample_stock_def object_keys_def)
  have h1: "set (object_keys (sample_stock ! 1)) = set (object_keys (hd sample_stock))"
    by (simp add: sample_stock_def object_keys_def)
  have hom: "\<forall>r \<in> set sample_stock. set (object_keys r) = set (object_keys (hd sample_stock))"
    by (simp add: sample_stock_def object_keys_def)
  have ev: "map (exported_record (object_keys (hd sample_stock))) sample_stock
      = [[(''Item'', ''12'' @ [dquote] @ '' rule, steel''), (''Quantity'', [])],
         [(''Item'', ''pen''), (''Quantity'', ''12'')]]"
    by (simp add: sample_stock_def exported_record_def object_keys_def obj_get_def or_js_def
        number_eval)
  from csv_round_trip[OF ne pk hom, of "''stock.csv''"]
  have "parse_csv (csv_text sample_stock)
      = Some (map (exported_record (object_keys (hd sample_stock))) sample_stock)"
    by blast
  with ev have "parse_csv (csv_text sample_stock)
     = Some [[(''Item'', ''12'' @ [dquote] @ '' rule, steel''), (''Quantity'', [])],
             [(''Item'', ''pen''), (''Quantity'', ''12'')]]"
    by simp
  with ne pk h0 h1 show ?thesis by blast
qed


end
